theory Spec2Isabelle
  imports Complex_Main
begin

section \<open>Boundary constraint components of TopFarm2 (topfarm/constraint\_components/boundary.py)\<close>

text \<open>
  The module computes signed distances from turbine positions to a boundary and the
  gradients of these distances. Python floats and numpy float arrays are modelled as
  real numbers and lists of reals: a one-dimensional array is a \<open>real list\<close>, an array
  of shape \<open>(2, n)\<close> holding x and y rows is a list of pairs, a matrix is a list of rows.
  Exceptions are values of the type \<open>error\<close>.
\<close>

subsection \<open>Vectors, errors and the numpy functions the module calls\<close>

type_synonym vec = "real \<times> real"

datatype error =
    AssertionError string
  | IndexError
  | KeyError
  | ValueError
  | TypeError
  | UnboundLocalError
  | NotImplementedError string
  | AttributeError

definition vsub :: "vec \<Rightarrow> vec \<Rightarrow> vec" where
  "vsub p q = (fst p - fst q, snd p - snd q)"

definition vadd :: "vec \<Rightarrow> vec \<Rightarrow> vec" where
  "vadd p q = (fst p + fst q, snd p + snd q)"

definition vscale :: "real \<Rightarrow> vec \<Rightarrow> vec" where
  "vscale c p = (c * fst p, c * snd p)"

definition vdiv :: "vec \<Rightarrow> real \<Rightarrow> vec" where
  "vdiv p c = (fst p / c, snd p / c)"

text \<open>\<open>np.sum(u * v, axis=0)\<close> and \<open>np.vdot\<close> on two-component arrays.\<close>

definition dot :: "vec \<Rightarrow> vec \<Rightarrow> real" where
  "dot p q = fst p * fst q + snd p * snd q"

text \<open>\<open>np.linalg.norm(vec, axis=0)\<close>, the helper \<open>vec_len\<close> of the source.\<close>

definition vec_len :: "vec \<Rightarrow> real" where
  "vec_len p = sqrt ((fst p)\<^sup>2 + (snd p)\<^sup>2)"

text \<open>
  \<open>np.argmin\<close> of a one-dimensional array: the index of the first occurrence of the
  minimum. On an empty array numpy raises \<open>ValueError\<close>; the callers below test for
  that case before they call \<open>argmin\<close>.
\<close>

fun argmin :: "real list \<Rightarrow> nat" where
  "argmin [] = 0"
| "argmin [a] = 0"
| "argmin (a # b # xs) =
     (let k = argmin (b # xs) in if a \<le> (b # xs) ! k then 0 else Suc k)"

text \<open>\<open>np.roll(v, 1, 1)\<close> and \<open>np.roll(v, -1, 1)\<close> along the edge axis.\<close>

definition roll_right :: "'a list \<Rightarrow> 'a list" where
  "roll_right v = (if v = [] then [] else last v # butlast v)"

definition roll_left :: "'a list \<Rightarrow> 'a list" where
  "roll_left v = (case v of [] \<Rightarrow> [] | a # w \<Rightarrow> w @ [a])"

text \<open>\<open>np.diagflat\<close> of a one-dimensional array and \<open>np.diag\<close> of a matrix.\<close>

definition diagflat :: "real list \<Rightarrow> real list list" where
  "diagflat v =
     map (\<lambda>i. map (\<lambda>j. if i = j then v ! i else 0) [0..<length v]) [0..<length v]"

definition np_diag :: "real list list \<Rightarrow> real list" where
  "np_diag M = map (\<lambda>i. M ! i ! i) [0..<length M]"

text \<open>\<open>np.sign\<close>.\<close>

definition np_sign :: "real \<Rightarrow> real" where
  "np_sign v = (if v < 0 then - 1 else if v = 0 then 0 else 1)"

text \<open>\<open>np.linspace(a, b, num)\<close> for \<open>num > 1\<close>.\<close>

definition linspace :: "real \<Rightarrow> real \<Rightarrow> nat \<Rightarrow> real list" where
  "linspace a b num = map (\<lambda>k. a + real k * ((b - a) / real (num - 1))) [0..<num]"

text \<open>
  \<open>np.arctan2(y, x)\<close>: the angle of the point \<open>(x, y)\<close> in \<open>(-\<pi>, \<pi>]\<close>, and 0 at the
  origin.
\<close>

definition arctan2 :: "real \<Rightarrow> real \<Rightarrow> real" where
  "arctan2 y x =
     (if 0 < x then arctan (y / x)
      else if x < 0 \<and> 0 \<le> y then arctan (y / x) + pi
      else if x < 0 then arctan (y / x) - pi
      else if 0 < y then pi / 2
      else if y < 0 then - (pi / 2)
      else 0)"

text \<open>
  The comparison \<open>np.all(np.array([x, y]) == self._cache_input)\<close> that guards the
  one-slot cache, for \<open>x\<close> and \<open>y\<close> of one length (\<open>np.array([x, y])\<close> raises
  \<open>ValueError\<close> otherwise, which the callers test first). Against \<open>None\<close> the
  comparison is elementwise false, so \<open>np.all\<close> holds only for empty arrays. Against a
  cached array numpy broadcasts: rows of one length are compared entry by entry, a row
  of length 1 is compared with every entry of the other row, and rows of other
  lengths cannot be broadcast, which raises \<open>ValueError\<close>. A cached key is an array,
  so its two rows have one length.
\<close>

definition bcast_all_eq :: "real list \<Rightarrow> real list \<Rightarrow> error + bool" where
  "bcast_all_eq a b =
     (if length a = length b then Inr (a = b)
      else if length b = 1 then Inr (list_all (\<lambda>v. v = b ! 0) a)
      else if length a = 1 then Inr (list_all (\<lambda>v. a ! 0 = v) b)
      else Inl ValueError)"

fun np_all_eq ::
  "real list \<times> real list \<Rightarrow> (real list \<times> real list) option \<Rightarrow> error + bool" where
  "np_all_eq (x, y) None = Inr (x = [] \<and> y = [])"
| "np_all_eq (x, y) (Some (cx, cy)) =
     (case (bcast_all_eq x cx, bcast_all_eq y cy) of
        (Inr p, Inr q) \<Rightarrow> Inr (p \<and> q)
      | _ \<Rightarrow> Inl ValueError)"

text \<open>
  The indexing \<open>M[np.arange(n), idx]\<close> with one index per row of \<open>M\<close>: for \<open>n\<close> rows
  it takes entry \<open>idx[k]\<close> of row \<open>k\<close>; the two index arrays are broadcast when one of
  them has length 1, and cannot be combined otherwise (\<open>IndexError\<close>, as for a row
  index out of range).
\<close>

definition fancy_index :: "nat \<Rightarrow> 'a list list \<Rightarrow> nat list \<Rightarrow> error + 'a list" where
  "fancy_index n M idx =
     (if n = length idx then Inr (map (\<lambda>k. M ! k ! (idx ! k)) [0..<n])
      else if length idx = 1 then (if n = 0 then Inr [] else Inl IndexError)
      else if n = 1 then Inr (map (\<lambda>k. M ! 0 ! k) idx)
      else Inl IndexError)"

subsection \<open>BoundaryBaseComp\<close>

text \<open>
  The constructor closes the boundary:
  \<open>if np.any(xy[0] != xy[-1]): xy = np.r_[xy, xy[:1]]\<close>. Indexing an empty array raises
  \<open>IndexError\<close>.
\<close>

definition close_ring :: "vec list \<Rightarrow> vec list" where
  "close_ring vertices =
     (if hd vertices \<noteq> last vertices then vertices @ [hd vertices] else vertices)"

definition BoundaryBaseComp_init :: "vec list \<Rightarrow> error + vec list" where
  "BoundaryBaseComp_init xy_boundary =
     (if xy_boundary = [] then Inl IndexError else Inr (close_ring xy_boundary))"

subsection \<open>ConvexBoundaryComp\<close>

text \<open>
  \<open>scipy.spatial.ConvexHull\<close> is a library function and a parameter of the model: it
  maps the points to the indices of the hull's vertices in counter-clockwise order, or
  fails. \<open>min(0)\<close> and \<open>max(0)\<close> of an empty array raise \<open>ValueError\<close>.
\<close>

definition list_min :: "real list \<Rightarrow> real" where
  "list_min v = fold min (tl v) (hd v)"

definition list_max :: "real list \<Rightarrow> real" where
  "list_max v = fold max (tl v) (hd v)"

definition unit_normal_of :: "vec list \<Rightarrow> nat \<Rightarrow> vec" where
  "unit_normal_of xy j =
     (let nxt = (if j < length xy - 1 then xy ! (j + 1) else xy ! 0);
          normal = (snd nxt - snd (xy ! j), - (fst nxt - fst (xy ! j)))
      in vdiv normal (vec_len normal))"

definition calculate_boundary_and_normals ::
  "(vec list \<Rightarrow> error + nat list) \<Rightarrow> string \<Rightarrow> vec list \<Rightarrow> error + (vec list \<times> nat \<times> vec list)" where
  "calculate_boundary_and_normals ConvexHull boundary_type xy_boundary =
     (case
        (if boundary_type = ''convex_hull'' then
           (case ConvexHull xy_boundary of
              Inl e \<Rightarrow> Inl e
            | Inr hull_vertices \<Rightarrow>
                if list_all (\<lambda>k. k < length xy_boundary) hull_vertices
                then Inr (map (\<lambda>k. xy_boundary ! k) hull_vertices)
                else Inl IndexError)
         else if boundary_type = ''square'' then
           (if xy_boundary = [] then Inl ValueError
            else (let min' = (list_min (map fst xy_boundary), list_min (map snd xy_boundary));
                      max' = (list_max (map fst xy_boundary), list_max (map snd xy_boundary));
                      range' = vsub max' min';
                      x_c = fst min' + fst range' / 2;
                      y_c = snd min' + snd range' / 2;
                      r = max (fst range') (snd range') / 2
                  in Inr [(x_c - r, y_c - r), (x_c + r, y_c - r),
                          (x_c + r, y_c + r), (x_c - r, y_c + r)]))
         else if boundary_type = ''rectangle'' then
           (if xy_boundary = [] then Inl ValueError
            else (let min' = (list_min (map fst xy_boundary), list_min (map snd xy_boundary));
                      max' = (list_max (map fst xy_boundary), list_max (map snd xy_boundary));
                      range' = vsub max' min';
                      x_c = fst min' + fst range' / 2;
                      y_c = snd min' + snd range' / 2;
                      r = vdiv range' 2
                  in Inr [(x_c - fst r, y_c - snd r), (x_c + fst r, y_c - snd r),
                          (x_c + fst r, y_c + snd r), (x_c - fst r, y_c + snd r)]))
         else Inl (NotImplementedError boundary_type))
      of
        Inl e \<Rightarrow> Inl e
      | Inr xy \<Rightarrow>
          Inr (xy, length xy, map (unit_normal_of xy) [0..<length xy]))"

text \<open>
  \<open>calculate_gradients\<close> fills two zero matrices of shape \<open>(n_wt * nVertices, n_wt)\<close>
  in a double loop over turbines \<open>i\<close> and faces \<open>j\<close>.
\<close>

definition set_entry :: "real list list \<Rightarrow> nat \<Rightarrow> nat \<Rightarrow> real \<Rightarrow> real list list" where
  "set_entry M r c v = M[r := (M ! r)[c := v]]"

definition calculate_gradients ::
  "nat \<Rightarrow> nat \<Rightarrow> vec list \<Rightarrow> real list list \<times> real list list" where
  "calculate_gradients n_wt nVertices unit_normals =
     fold (\<lambda>i. fold (\<lambda>j (dfaceDistance_dx, dfaceDistance_dy).
             (let dpa_dx = (- 1, 0);
                  dpa_dy = (0, - 1);
                  ddistanceVec_dx = vscale (dot dpa_dx (unit_normals ! j)) (unit_normals ! j);
                  ddistanceVec_dy = vscale (dot dpa_dy (unit_normals ! j)) (unit_normals ! j)
              in (set_entry dfaceDistance_dx (i * nVertices + j) i
                    (dot ddistanceVec_dx (unit_normals ! j)),
                  set_entry dfaceDistance_dy (i * nVertices + j) i
                    (dot ddistanceVec_dy (unit_normals ! j)))))
           [0..<nVertices])
       [0..<n_wt]
       (replicate (n_wt * nVertices) (replicate n_wt 0),
        replicate (n_wt * nVertices) (replicate n_wt 0))"

record ConvexBoundaryComp =
  cb_n_wt :: nat
  cb_boundary_type :: string
  cb_xy_boundary :: "vec list"
  cb_nVertices :: nat
  cb_unit_normals :: "vec list"
  cb_dfaceDistance_dx :: "real list list"
  cb_dfaceDistance_dy :: "real list list"

definition ConvexBoundaryComp_init ::
  "(vec list \<Rightarrow> error + nat list) \<Rightarrow> nat \<Rightarrow> vec list \<Rightarrow> string \<Rightarrow> error + ConvexBoundaryComp" where
  "ConvexBoundaryComp_init ConvexHull n_wt xy_boundary boundary_type =
     (case calculate_boundary_and_normals ConvexHull boundary_type xy_boundary of
        Inl e \<Rightarrow> Inl e
      | Inr (xy, nVertices, unit_normals) \<Rightarrow>
          (case BoundaryBaseComp_init xy of
             Inl e \<Rightarrow> Inl e
           | Inr ring \<Rightarrow>
               (case calculate_gradients n_wt nVertices unit_normals of
                  (dfaceDistance_dx, dfaceDistance_dy) \<Rightarrow>
                    Inr \<lparr>cb_n_wt = n_wt, cb_boundary_type = boundary_type,
                         cb_xy_boundary = ring, cb_nVertices = nVertices,
                         cb_unit_normals = unit_normals,
                         cb_dfaceDistance_dx = dfaceDistance_dx,
                         cb_dfaceDistance_dy = dfaceDistance_dy\<rparr>)))"

text \<open>
  \<open>calculate_distance_to_boundary\<close>: the vertices are \<open>self.xy_boundary[:-1]\<close>; the
  product with \<open>unit_normals\<close> needs as many vertices as normals and raises
  \<open>ValueError\<close> otherwise. The result holds one row per point and one column per face.
  \<open>distances\<close> passes the points \<open>np.array([x, y]).T\<close>, which raises \<open>ValueError\<close> for
  \<open>x\<close> and \<open>y\<close> of different lengths.
\<close>

definition calculate_distance_to_boundary ::
  "ConvexBoundaryComp \<Rightarrow> vec list \<Rightarrow> error + real list list" where
  "calculate_distance_to_boundary self points =
     (let vertices = butlast (cb_xy_boundary self);
          unit_normals = cb_unit_normals self
      in if length vertices \<noteq> length unit_normals then Inl ValueError
         else Inr (map (\<lambda>P. map2 (\<lambda>V n.
                      (let PA = vsub V P;
                           d = dot PA n;
                           d_vec = vscale d n
                       in dot d_vec n)) vertices unit_normals) points))"

definition Convex_distances ::
  "ConvexBoundaryComp \<Rightarrow> real list \<Rightarrow> real list \<Rightarrow> error + real list list" where
  "Convex_distances self x y =
     (if length x \<noteq> length y then Inl ValueError
      else calculate_distance_to_boundary self (zip x y))"

definition Convex_gradients ::
  "ConvexBoundaryComp \<Rightarrow> real list \<Rightarrow> real list \<Rightarrow> real list list \<times> real list list" where
  "Convex_gradients self x y = (cb_dfaceDistance_dx self, cb_dfaceDistance_dy self)"

text \<open>
  \<open>satisfy\<close> of the convex component: for every turbine with a negative face distance
  it searches a 100 x 100 grid of displacements (\<open>np.meshgrid(v, v)\<close>, read in row-major
  order by the boolean mask) for the feasible one closest to the origin; \<open>np.argmin\<close>
  of an empty selection raises \<open>ValueError\<close>. The argument \<open>pad\<close> is not used.
\<close>

definition meshgrid :: "real list \<Rightarrow> (real \<times> real) list" where
  "meshgrid v = concat (map (\<lambda>Yv. map (\<lambda>Xv. (Xv, Yv)) v) v)"

definition satisfy_turbine ::
  "real list \<Rightarrow> real list \<Rightarrow> real list list \<Rightarrow> nat \<Rightarrow> real list \<times> real list
     \<Rightarrow> error + (real list \<times> real list)" where
  "satisfy_turbine dx dy dists i xy =
     (let d = dists ! i;
          v = linspace (- \<bar>list_min d\<bar>) \<bar>list_min d\<bar> 100;
          m = filter (\<lambda>(X, Y). list_all (\<lambda>(dx', dy', d'). X * dx' + Y * dy' \<ge> - d')
                                    (zip dx (zip dy d))) (meshgrid v)
      in if m = [] then Inl ValueError
         else (let index = argmin (map (\<lambda>(X, Y). X\<^sup>2 + Y\<^sup>2) m)
               in Inr ((fst xy)[i := fst xy ! i + fst (m ! index)],
                       (snd xy)[i := snd xy ! i + snd (m ! index)])))"

definition x_key :: string where "x_key = ''x''"

definition y_key :: string where "y_key = ''y''"

type_synonym state = "string \<rightharpoonup> real list"

definition Convex_satisfy :: "ConvexBoundaryComp \<Rightarrow> state \<Rightarrow> real \<Rightarrow> error + state" where
  "Convex_satisfy self state pad =
     (case (state x_key, state y_key) of
        (Some x, Some y) \<Rightarrow>
          (case Convex_distances self x y of
             Inl e \<Rightarrow> Inl e
           | Inr dists0 \<Rightarrow>
               (let dists = map (map (\<lambda>d. if d < 0 then min d (- (1 / 100)) else d)) dists0
                in case Convex_gradients self x y of (Dx, Dy) \<Rightarrow>
                   if cb_n_wt self = 0 then Inl IndexError
                   else (let dx = map (\<lambda>row. row ! 0) (take (cb_nVertices self) Dx);
                             dy = map (\<lambda>row. row ! 0) (take (cb_nVertices self) Dy)
                         in if cb_unit_normals self = [] then Inl ValueError
                            else (case fold (\<lambda>i acc. case acc of
                                               Inl e \<Rightarrow> Inl e
                                             | Inr xy \<Rightarrow> satisfy_turbine dx dy dists i xy)
                                         (filter (\<lambda>i. list_min (dists ! i) < 0) [0..<length dists])
                                         (Inr (x, y)) of
                                    Inl e \<Rightarrow> Inl e
                                  | Inr (x', y') \<Rightarrow> Inr (state(x_key \<mapsto> x', y_key \<mapsto> y'))))))
      | _ \<Rightarrow> Inl KeyError)"

subsection \<open>PolygonBoundaryComp\<close>

text \<open>
  \<open>get_edges\<close>, the inner function of \<open>get_boundary_properties\<close>: it closes the ring,
  computes the shoelace sum \<open>double_area = np.sum((x1 - x2) * (y1 + y2))\<close> over the
  edges, asserts that it is not zero, and calls itself on the reversed ring when the
  orientation is not the requested one.
\<close>

text \<open>
  The coordinates are real numbers here. numpy computes the shoelace sum of a float
  ring in floating point and that of an integer ring in 64-bit integers, where
  differences, sums and products wrap around. For an integer ring the real sum is
  numpy's value as long as nothing wraps: with \<open>c\<close> the largest absolute coordinate
  and \<open>n\<close> vertices, every difference and sum is at most \<open>2 * c\<close>, every product at
  most \<open>4 * c\<^sup>2\<close> and every partial sum at most \<open>4 * (n + 1) * c\<^sup>2\<close> in absolute
  value. \<open>int64_exact\<close> bounds the last number below \<open>2\<^sup>6\<^sup>3\<close>; the properties of
  the normalisation are stated for such rings.
\<close>

definition coordinate_bound :: "vec list \<Rightarrow> real" where
  "coordinate_bound vertices = list_max (map (\<lambda>v. max \<bar>fst v\<bar> \<bar>snd v\<bar>) vertices)"

definition int64_exact :: "vec list \<Rightarrow> bool" where
  "int64_exact vertices =
     (4 * real (length vertices + 1) * (coordinate_bound vertices)\<^sup>2 < 2 ^ 63)"

definition double_area :: "vec list \<Rightarrow> real" where
  "double_area vertices =
     sum_list (map2 (\<lambda>a b. (fst a - fst b) * (snd a + snd b)) (butlast vertices) (tl vertices))"

definition wrong_orientation :: "bool \<Rightarrow> real \<Rightarrow> bool" where
  "wrong_orientation counter_clockwise da =
     ((counter_clockwise \<and> da < 0) \<or> (\<not> counter_clockwise \<and> da > 0))"

function get_edges :: "vec list \<Rightarrow> bool \<Rightarrow> error + (vec list \<times> vec list \<times> vec list)" where
  "get_edges vertices counter_clockwise =
     (if vertices = [] then Inl IndexError
      else if double_area (close_ring vertices) = 0
        then Inl (AssertionError ''Area must be non-zero'')
      else if wrong_orientation counter_clockwise (double_area (close_ring vertices))
        then get_edges (rev (close_ring vertices)) counter_clockwise
      else Inr (butlast (close_ring vertices), butlast (close_ring vertices),
                tl (close_ring vertices)))"
  by pat_completeness auto
termination
proof (relation "measure (\<lambda>(vs, ccw).
         if vs \<noteq> [] \<and> wrong_orientation ccw (double_area (close_ring vs)) then 1 else 0)",
       goal_cases)
  case 1
  show ?case by simp
next
  case (2 vertices counter_clockwise)
  define c where "c = close_ring vertices"
  have c_ne: "c \<noteq> []" and c_closed: "hd c = last c"
    using 2(1) by (auto simp: c_def close_ring_def)
  have close_rev: "close_ring (rev c) = rev c"
    using c_ne c_closed by (simp add: close_ring_def hd_rev last_rev)
  have swap: "sum_list (map (\<lambda>(a, b). (fst a - fst b) * (snd a + snd b)) (map (\<lambda>(a, b). (b, a)) zs))
       = - sum_list (map (\<lambda>(a::vec, b::vec). (fst a - fst b) * (snd a + snd b)) zs)" for zs
    by (induction zs) (auto simp: algebra_simps)
  have tl_rev: "tl (rev c) = rev (butlast c)"
    by (metis butlast_rev rev_rev_ident)
  have "zip (butlast (rev c)) (tl (rev c)) = zip (rev (tl c)) (rev (butlast c))"
    by (simp only: butlast_rev tl_rev)
  also have "\<dots> = rev (zip (tl c) (butlast c))"
    by (simp add: zip_rev)
  also have "zip (tl c) (butlast c) = map (\<lambda>(a, b). (b, a)) (zip (butlast c) (tl c))"
    by (rule zip_commute)
  finally have zips: "zip (butlast (rev c)) (tl (rev c))
      = rev (map (\<lambda>(a, b). (b, a)) (zip (butlast c) (tl c)))" .
  have neg: "double_area (rev c) = - double_area c"
    unfolding double_area_def zips
    by (simp only: rev_map [symmetric] sum_list_rev swap)
  from 2 c_ne show ?case
    by (auto simp: c_def [symmetric] close_rev neg wrong_orientation_def)
qed

declare get_edges.simps [simp del]

text \<open>
  \<open>get_boundary_properties\<close> returns the tuple
  \<open>(xy_boundary, A, B, AB, AB_len, edge_unit_normal, A_normal, B_normal)\<close>; the seven
  edge arrays, which the source passes on as \<open>boundary_properties[1:]\<close>, are a record.
\<close>

record boundary_properties =
  bp_A :: "vec list"
  bp_B :: "vec list"
  bp_AB :: "vec list"
  bp_AB_len :: "real list"
  bp_edge_unit_normal :: "vec list"
  bp_A_normal :: "vec list"
  bp_B_normal :: "vec list"

definition get_boundary_properties ::
  "vec list \<Rightarrow> bool \<Rightarrow> error + (vec list \<times> boundary_properties)" where
  "get_boundary_properties xy_boundary inclusion_zone =
     (case get_edges xy_boundary inclusion_zone of
        Inl e \<Rightarrow> Inl e
      | Inr (xy, A, B) \<Rightarrow>
          (let AB = map2 (\<lambda>b a. vsub b a) B A;
               AB_len = map vec_len AB;
               edge_unit_normal = map2 (\<lambda>ab l. vdiv (- snd ab, fst ab) l) AB AB_len;
               A_normal = map2 (\<lambda>n m. vdiv (vadd n m) 2)
                            edge_unit_normal (roll_right edge_unit_normal);
               B_normal = roll_left A_normal
           in Inr (xy, \<lparr>bp_A = A, bp_B = B, bp_AB = AB, bp_AB_len = AB_len,
                        bp_edge_unit_normal = edge_unit_normal,
                        bp_A_normal = A_normal, bp_B_normal = B_normal\<rparr>)))"

text \<open>
  \<open>_calc_distance_and_gradients\<close> works on arrays of shape (points, edges). The body is
  the same for every pair of a point \<open>P\<close> and an edge, and is written once here; the
  masked assignments \<open>distance[use_A] = ...\<close> and \<open>distance[use_B] = ...\<close> are made in
  this order, so the second one wins where both masks hold.
\<close>

type_synonym edge = "vec \<times> vec \<times> vec \<times> real \<times> vec \<times> vec \<times> vec"

definition edges_of :: "boundary_properties \<Rightarrow> edge list" where
  "edges_of bp =
     zip (bp_A bp) (zip (bp_B bp) (zip (bp_AB bp) (zip (bp_AB_len bp)
       (zip (bp_edge_unit_normal bp) (zip (bp_A_normal bp) (bp_B_normal bp))))))"

definition edge_distance_and_gradient :: "vec \<Rightarrow> edge \<Rightarrow> real \<times> real \<times> real" where
  "edge_distance_and_gradient P e =
     (case e of (A, B, AB, AB_len, edge_unit_normal, A_normal, B_normal) \<Rightarrow>
        (let AP = vsub P A;
             BP = vsub P B;
             a_tilde = dot AP AB / AB_len;
             use_A = (0 > a_tilde);
             use_B = (a_tilde > AB_len);
             sign_use_A = (if dot AP A_normal > 0 then 1 else - 1);
             sign_use_B = (if dot BP B_normal > 0 then 1 else - 1);
             distance = (if use_B then vec_len BP * sign_use_B
                         else if use_A then vec_len AP * sign_use_A
                         else dot AP edge_unit_normal);
             ddist_dxy = (if use_B then vscale sign_use_B (vdiv BP (vec_len BP))
                          else if use_A then vscale sign_use_A (vdiv AP (vec_len AP))
                          else edge_unit_normal)
         in (distance, fst ddist_dxy, snd ddist_dxy)))"

definition per_edge_distance_and_gradients ::
  "real list \<Rightarrow> real list \<Rightarrow> boundary_properties
     \<Rightarrow> real list list \<times> real list list \<times> real list list" where
  "per_edge_distance_and_gradients x y bp =
     (let R = map (\<lambda>P. map (edge_distance_and_gradient P) (edges_of bp)) (zip x y)
      in (map (map fst) R, map (map (\<lambda>r. fst (snd r))) R, map (map (\<lambda>r. snd (snd r))) R))"

text \<open>
  \<open>np.choose(closest_edge_index, v.T)\<close>: entry \<open>i\<close> is \<open>v[i, closest_edge_index[i]]\<close>.
  The rows of \<open>v.T\<close>, one per edge, are the choices, and numpy broadcasts them together
  with the index array in one iterator of at most \<open>NPY_MAXARGS\<close> arrays (32 in the
  releases before numpy 2.0): with 32 edges or more the call raises \<open>ValueError\<close>.
\<close>

definition choose_limit :: nat where
  "choose_limit = 32"

definition np_choose :: "nat list \<Rightarrow> real list list \<Rightarrow> real list" where
  "np_choose idx v = map2 (\<lambda>k row. row ! k) idx v"

type_synonym polygon_output = "real list \<times> real list \<times> real list"

record PolygonBoundaryComp =
  pb_n_wt :: nat
  pb_xy_boundary :: "vec list"
  pb_boundary_properties :: boundary_properties
  pb_relaxation :: "(real \<times> real) option"
  pb_cache_input :: "(real list \<times> real list) option"
  pb_cache_output :: "polygon_output option"

definition PolygonBoundaryComp_init ::
  "nat \<Rightarrow> vec list \<Rightarrow> (real \<times> real) option \<Rightarrow> error + PolygonBoundaryComp" where
  "PolygonBoundaryComp_init n_wt xy_boundary relaxation =
     (case get_boundary_properties xy_boundary True of
        Inl e \<Rightarrow> Inl e
      | Inr (xy, bp) \<Rightarrow>
          (case BoundaryBaseComp_init xy of
             Inl e \<Rightarrow> Inl e
           | Inr ring \<Rightarrow>
               Inr \<lparr>pb_n_wt = n_wt, pb_xy_boundary = ring, pb_boundary_properties = bp,
                    pb_relaxation = relaxation, pb_cache_input = None,
                    pb_cache_output = None\<rparr>))"

text \<open>
  The value that \<open>calc_distance_and_gradients\<close> computes on a cache miss: per point the
  entries of the edge \<open>np.argmin(np.abs(distance), 1)\<close>.
\<close>

definition Polygon_compute :: "boundary_properties \<Rightarrow> real list \<Rightarrow> real list \<Rightarrow> polygon_output" where
  "Polygon_compute bp x y =
     (case per_edge_distance_and_gradients x y bp of (distance, ddist_dX, ddist_dY) \<Rightarrow>
        (let closest_edge_index = map (\<lambda>row. argmin (map abs row)) distance
         in (np_choose closest_edge_index distance,
             np_choose closest_edge_index ddist_dX,
             np_choose closest_edge_index ddist_dY)))"

text \<open>
  A call returns the output and the component with its cache updated.
  \<open>np.array([x, y])\<close> raises \<open>ValueError\<close> for \<open>x\<close> and \<open>y\<close> of different lengths, and
  with no edge \<open>np.argmin\<close> along the empty axis raises \<open>ValueError\<close>, as \<open>np.choose\<close>
  does with \<open>choose_limit\<close> edges or more. The method does not read \<open>self.relaxation\<close>.
\<close>

definition Polygon_calc_distance_and_gradients ::
  "PolygonBoundaryComp \<Rightarrow> real list \<Rightarrow> real list
     \<Rightarrow> error + (polygon_output option \<times> PolygonBoundaryComp)" where
  "Polygon_calc_distance_and_gradients self x y =
     (if length x \<noteq> length y then Inl ValueError
      else case np_all_eq (x, y) (pb_cache_input self) of
        Inl e \<Rightarrow> Inl e
      | Inr hit \<Rightarrow>
          if hit then Inr (pb_cache_output self, self)
          else if edges_of (pb_boundary_properties self) = [] then Inl ValueError
          else if choose_limit \<le> length (edges_of (pb_boundary_properties self))
          then Inl ValueError
          else (let out = Polygon_compute (pb_boundary_properties self) x y
                in Inr (Some out,
                        self\<lparr>pb_cache_input := Some (x, y), pb_cache_output := Some out\<rparr>)))"

text \<open>Indexing or unpacking the cached \<open>None\<close> raises \<open>TypeError\<close>.\<close>

definition Polygon_distances ::
  "PolygonBoundaryComp \<Rightarrow> real list \<Rightarrow> real list \<Rightarrow> error + (real list \<times> PolygonBoundaryComp)" where
  "Polygon_distances self x y =
     (case Polygon_calc_distance_and_gradients self x y of
        Inl e \<Rightarrow> Inl e
      | Inr (None, self') \<Rightarrow> Inl TypeError
      | Inr (Some (distance, dx, dy), self') \<Rightarrow> Inr (distance, self'))"

definition Polygon_gradients ::
  "PolygonBoundaryComp \<Rightarrow> real list \<Rightarrow> real list
     \<Rightarrow> error + ((real list list \<times> real list list) \<times> PolygonBoundaryComp)" where
  "Polygon_gradients self x y =
     (case Polygon_calc_distance_and_gradients self x y of
        Inl e \<Rightarrow> Inl e
      | Inr (None, self') \<Rightarrow> Inl TypeError
      | Inr (Some (distance, dx, dy), self') \<Rightarrow> Inr ((diagflat dx, diagflat dy), self'))"

text \<open>
  \<open>satisfy(state, pad)\<close>: the state is a dictionary keyed by coordinate names
  (\<open>topfarm.x_key\<close> and \<open>topfarm.y_key\<close> are \<open>'x'\<close> and \<open>'y'\<close>). The masked updates
  \<open>x[m] -= dx[m] * dist[m] * pad\<close> change the entries with \<open>dist < 0\<close> only; a mask whose
  length differs from the array's raises \<open>IndexError\<close>. \<open>np.diag\<close> reads the diagonals
  of the matrices that \<open>gradients\<close> returns.
\<close>

definition masked_step :: "real list \<Rightarrow> real list \<Rightarrow> real list \<Rightarrow> real \<Rightarrow> real list" where
  "masked_step x dx dists pad =
     map (\<lambda>i. if dists ! i < 0 then x ! i - dx ! i * dists ! i * pad else x ! i) [0..<length x]"

definition Polygon_satisfy ::
  "PolygonBoundaryComp \<Rightarrow> state \<Rightarrow> real \<Rightarrow> error + (state \<times> PolygonBoundaryComp)" where
  "Polygon_satisfy self state pad =
     (case (state x_key, state y_key) of
        (Some x, Some y) \<Rightarrow>
          (case Polygon_distances self x y of
             Inl e \<Rightarrow> Inl e
           | Inr (dists, self1) \<Rightarrow>
               (case Polygon_gradients self1 x y of
                  Inl e \<Rightarrow> Inl e
                | Inr ((Dx, Dy), self2) \<Rightarrow>
                    (let dx = np_diag Dx; dy = np_diag Dy
                     in if length dists \<noteq> length x \<or> length dists \<noteq> length y
                           \<or> length dx \<noteq> length dists \<or> length dy \<noteq> length dists
                        then Inl IndexError
                        else Inr (state(x_key \<mapsto> masked_step x dx dists pad,
                                        y_key \<mapsto> masked_step y dy dists pad), self2))))
      | _ \<Rightarrow> Inl KeyError)"

subsection \<open>CircleBoundaryComp\<close>

record CircleBoundaryComp =
  cc_n_wt :: nat
  cc_center :: vec
  cc_radius :: real

definition Circle_distances :: "CircleBoundaryComp \<Rightarrow> real list \<Rightarrow> real list \<Rightarrow> real list" where
  "Circle_distances self x y =
     map2 (\<lambda>xi yi. cc_radius self
                      - sqrt ((xi - fst (cc_center self))\<^sup>2 + (yi - snd (cc_center self))\<^sup>2)) x y"

text \<open>
  \<open>gradients\<close> starts from \<open>dx = dy = -1 * np.ones_like(x)\<close> and overwrites the entries
  of the mask \<open>not_center = dist != self.radius\<close>.
\<close>

definition Circle_gradients ::
  "CircleBoundaryComp \<Rightarrow> real list \<Rightarrow> real list \<Rightarrow> real list list \<times> real list list" where
  "Circle_gradients self x y =
     (let theta = map2 (\<lambda>xi yi. arctan2 (yi - snd (cc_center self)) (xi - fst (cc_center self))) x y;
          dists = map2 (\<lambda>xi yi. cc_radius self
                   - sqrt ((xi - fst (cc_center self))\<^sup>2 + (yi - snd (cc_center self))\<^sup>2)) x y;
          not_center = map (\<lambda>d. d \<noteq> cc_radius self) dists;
          dx = map (\<lambda>i. if not_center ! i then - cos (theta ! i) else - 1) [0..<length x];
          dy = map (\<lambda>i. if not_center ! i then - sin (theta ! i) else - 1) [0..<length x]
      in (diagflat dx, diagflat dy))"

subsection \<open>MultiPolygonBoundaryComp: the relaxation schedule\<close>

text \<open>
  \<open>calc_relaxation\<close> reads the pair \<open>self.relaxation\<close> and the counter
  \<open>self.problem.cost_comp.n_grad_eval\<close>, which belongs to the optimisation problem and
  is a parameter here.
\<close>

definition calc_relaxation :: "real \<times> real \<Rightarrow> nat \<Rightarrow> real" where
  "calc_relaxation relaxation n_grad_eval =
     (let iteration_no = real n_grad_eval + 1
      in max 0 (fst relaxation * (snd relaxation - iteration_no)))"

subsection \<open>MultiPolygonBoundaryComp: distances and gradients\<close>

text \<open>
  The cached output is the list \<open>[Dist_ij, dDdk_ijk, sign_i]\<close>: the distances of every
  point to every edge, the pairs of their x and y derivatives, and per point the sign
  of the distance of least absolute value. \<open>self.relaxation\<close> is \<open>False\<close> (here
  \<open>None\<close>) or a pair \<open>(rate, horizon)\<close>, which is truthy. \<open>self.method\<close> is a string.
  \<open>smooth_max\<close> and \<open>smooth_max_gradient\<close> (with \<open>axis=1\<close>) come from
  \<open>topfarm.utils\<close> and are parameters.

  The component holds two edge tables: \<open>self.boundary_properties\<close>, which the
  constructor of the polygon component builds from the first zone, and
  \<open>self.boundary_properties_list_all\<close>, the list of the concatenated edge arrays of
  the merged domain, which is the empty list (here \<open>None\<close>) when the merged domain is
  empty. \<open>_calc_distance_and_gradients\<close> works on
  \<open>boundary_properties or self.boundary_properties[1:]\<close>: an empty list is falsy, so
  it falls back to the first zone's edges.
\<close>

type_synonym multi_output = "real list list \<times> vec list list \<times> real list"

record MultiPolygonBoundaryComp =
  mp_n_wt :: nat
  mp_boundary_properties :: boundary_properties
  mp_boundary_properties_list_all :: "boundary_properties option"
  mp_relaxation :: "(real \<times> real) option"
  mp_method :: string
  mp_cache_input :: "(real list \<times> real list) option"
  mp_cache_output :: "multi_output option"

definition MultiPolygon_sign :: "real list list \<Rightarrow> real list" where
  "MultiPolygon_sign Dist_ij = map (\<lambda>row. np_sign (row ! argmin (map abs row))) Dist_ij"

text \<open>The value that \<open>calc_distance_and_gradients\<close> computes when it does not use the cache.\<close>

definition MultiPolygon_compute :: "boundary_properties \<Rightarrow> real list \<Rightarrow> real list \<Rightarrow> multi_output" where
  "MultiPolygon_compute bp x y =
     (case per_edge_distance_and_gradients x y bp of (Dist_ij, ddist_dX, ddist_dY) \<Rightarrow>
        (let dDdk_ijk = map2 zip ddist_dX ddist_dY;
             sign_i = MultiPolygon_sign Dist_ij
         in (Dist_ij, dDdk_ijk, sign_i)))"

definition mp_edge_table :: "MultiPolygonBoundaryComp \<Rightarrow> boundary_properties" where
  "mp_edge_table self =
     (case mp_boundary_properties_list_all self of
        Some boundary_properties \<Rightarrow> boundary_properties
      | None \<Rightarrow> mp_boundary_properties self)"

text \<open>
  The guard \<open>np.all(np.array([x, y]) == self._cache_input) & (not self.relaxation)\<close>
  evaluates both operands, so the comparison can raise also when relaxation is
  enabled. With no edge, \<open>np.argmin\<close> in \<open>sign\<close> raises \<open>ValueError\<close>.
\<close>

definition MultiPolygon_calc_distance_and_gradients ::
  "MultiPolygonBoundaryComp \<Rightarrow> real list \<Rightarrow> real list
     \<Rightarrow> error + (multi_output option \<times> MultiPolygonBoundaryComp)" where
  "MultiPolygon_calc_distance_and_gradients self x y =
     (if length x \<noteq> length y then Inl ValueError
      else case np_all_eq (x, y) (mp_cache_input self) of
        Inl e \<Rightarrow> Inl e
      | Inr hit \<Rightarrow>
          if hit \<and> mp_relaxation self = None then Inr (mp_cache_output self, self)
          else if edges_of (mp_edge_table self) = [] then Inl ValueError
          else (let out = MultiPolygon_compute (mp_edge_table self) x y
                in Inr (Some out,
                        self\<lparr>mp_cache_input := Some (x, y), mp_cache_output := Some out\<rparr>)))"

text \<open>
  \<open>distances\<close>: the counter \<open>n_grad_eval\<close> of the problem is a parameter. With a method
  other than \<open>'smooth_min'\<close> and \<open>'nearest'\<close> the variable \<open>Dist_i\<close> is unbound;
  \<open>np.abs(Dist_ij).max()\<close> of an array without entries raises \<open>ValueError\<close>, and so
  does \<open>np.argmin\<close> along an axis without entries. The method \<open>'nearest'\<close> reads
  \<open>Dist_ij[np.arange(x.size), np.argmin(np.abs(Dist_ij), axis=1)]\<close>.
\<close>

definition MultiPolygon_distances ::
  "(real list list \<Rightarrow> real \<Rightarrow> real list) \<Rightarrow> MultiPolygonBoundaryComp \<Rightarrow> nat \<Rightarrow> real list \<Rightarrow> real list
     \<Rightarrow> error + (real list \<times> MultiPolygonBoundaryComp)" where
  "MultiPolygon_distances smooth_max self n_grad_eval x y =
     (case MultiPolygon_calc_distance_and_gradients self x y of
        Inl e \<Rightarrow> Inl e
      | Inr (None, self') \<Rightarrow> Inl TypeError
      | Inr (Some (Dist_ij, dDdk_ijk, sign_i), self') \<Rightarrow>
          (case
             (if mp_method self' = ''smooth_min'' then
                (if concat Dist_ij = [] then Inl ValueError
                 else Inr (map2 (\<lambda>s sg. s * sg)
                        (smooth_max (map (map abs) Dist_ij)
                           (- list_max (concat (map (map abs) Dist_ij))))
                        sign_i))
              else if mp_method self' = ''nearest'' then
                (if list_ex (\<lambda>row. row = []) Dist_ij then Inl ValueError
                 else fancy_index (length x) Dist_ij
                        (map (\<lambda>row. argmin (map abs row)) Dist_ij))
              else Inl UnboundLocalError)
           of
             Inl e \<Rightarrow> Inl e
           | Inr Dist_i \<Rightarrow>
               (case mp_relaxation self' of
                  Some relaxation \<Rightarrow>
                    Inr (map (\<lambda>d. d + calc_relaxation relaxation n_grad_eval) Dist_i, self')
                | None \<Rightarrow> Inr (Dist_i, self'))))"

text \<open>
  \<open>gradients\<close> returns two diagonal matrices and, when relaxation is enabled, the
  array \<open>np.ones(self.n_wt) * self.relaxation[1]\<close> as a third component.
\<close>

definition MultiPolygon_gradients ::
  "(real list list \<Rightarrow> real \<Rightarrow> real list list) \<Rightarrow> MultiPolygonBoundaryComp \<Rightarrow> real list \<Rightarrow> real list
     \<Rightarrow> error + ((real list list \<times> real list list \<times> real list option) \<times> MultiPolygonBoundaryComp)" where
  "MultiPolygon_gradients smooth_max_gradient self x y =
     (case MultiPolygon_calc_distance_and_gradients self x y of
        Inl e \<Rightarrow> Inl e
      | Inr (None, self') \<Rightarrow> Inl TypeError
      | Inr (Some (Dist_ij, dDdk_ijk, sign_i), self') \<Rightarrow>
          (case
             (if mp_method self' = ''smooth_min'' then
                (if concat Dist_ij = [] then Inl ValueError
                 else (let dSdDist_ij = smooth_max_gradient (map (map abs) Dist_ij)
                                          (- list_max (concat (map (map abs) Dist_ij)))
                       in Inr (map2 (\<lambda>w g. sum_list (map2 (\<lambda>wj gj. wj * fst gj) w g)) dSdDist_ij dDdk_ijk,
                               map2 (\<lambda>w g. sum_list (map2 (\<lambda>wj gj. wj * snd gj) w g)) dSdDist_ij dDdk_ijk)))
              else if mp_method self' = ''nearest'' then
                (if list_ex (\<lambda>row. row = []) Dist_ij then Inl ValueError
                 else (case fancy_index (length x) dDdk_ijk
                               (map (\<lambda>row. argmin (map abs row)) Dist_ij) of
                         Inl e \<Rightarrow> Inl e
                       | Inr dSdk_i \<Rightarrow> Inr (map fst dSdk_i, map snd dSdk_i)))
              else Inl UnboundLocalError)
           of
             Inl e \<Rightarrow> Inl e
           | Inr (dSdkx_i, dSdky_i) \<Rightarrow>
               (case mp_relaxation self' of
                  Some relaxation \<Rightarrow>
                    Inr ((diagflat dSdkx_i, diagflat dSdky_i,
                          Some (map (\<lambda>one. one * snd relaxation) (replicate (mp_n_wt self') 1))), self')
                | None \<Rightarrow> Inr ((diagflat dSdkx_i, diagflat dSdky_i, None), self'))))"

subsection \<open>MultiPolygonBoundaryComp: merging the zones\<close>

text \<open>
  The zones are shapely geometries. A polygon is its exterior ring and its interior
  rings, each a closed coordinate sequence; the results of shapely's set operations
  are polygons, multi-polygons or other geometries. The area is shapely's: the
  absolute shoelace area of the exterior minus those of the holes. The predicates
  \<open>intersects\<close> and \<open>contains\<close>, \<open>unary_union\<close> of two geometries and
  \<open>(d.symmetric_difference(b)).difference(b)\<close> belong to the library and are parameters.
  Reading \<open>.exterior\<close> of a geometry that is not a polygon raises \<open>AttributeError\<close>.
\<close>

datatype geometry =
    Polygon (exterior: "vec list") (interiors: "vec list list")
  | MultiPolygon (geoms: "geometry list")
  | GeometryCollection

fun area :: "geometry \<Rightarrow> real" where
  "area (Polygon ext holes) =
     \<bar>double_area ext\<bar> / 2 - sum_list (map (\<lambda>h. \<bar>double_area h\<bar> / 2) holes)"
| "area (MultiPolygon gs) = sum_list (map area gs)"
| "area GeometryCollection = 0"

record shapely =
  intersects :: "geometry \<Rightarrow> geometry \<Rightarrow> bool"
  contains :: "geometry \<Rightarrow> geometry \<Rightarrow> bool"
  unary_union :: "geometry \<Rightarrow> geometry \<Rightarrow> geometry"
  nonoverlap :: "geometry \<Rightarrow> geometry \<Rightarrow> geometry"

text \<open>
  One pass of the loop \<open>for j, d in enumerate(domain)\<close> for an inclusion zone: the loop
  carries the zone \<open>b\<close>, which it replaces by unions, and the list \<open>temp\<close>.
\<close>

definition inclusion_step ::
  "shapely \<Rightarrow> nat \<Rightarrow> nat \<times> geometry \<Rightarrow> geometry \<times> geometry list \<Rightarrow> geometry \<times> geometry list" where
  "inclusion_step sh len_domain jd acc =
     (let j = fst jd; d = snd jd; b = fst acc; temp = snd acc;
          acc1 = (if intersects sh d b then (unary_union sh d b, temp)
                  else if contains sh d b then (b, temp)
                  else if contains sh b d then (d, temp)
                  else if area b > 1 / 1000 then (b, temp @ [d])
                  else (b, temp))
      in if j = len_domain - 1
         then (if area (fst acc1) > 1 / 1000 then (fst acc1, snd acc1 @ [fst acc1]) else acc1)
         else acc1)"

definition exclusion_step ::
  "shapely \<Rightarrow> geometry \<Rightarrow> geometry \<Rightarrow> error + geometry list \<Rightarrow> error + geometry list" where
  "exclusion_step sh b d acc =
     (case acc of
        Inl e \<Rightarrow> Inl e
      | Inr temp \<Rightarrow>
          (if intersects sh d b then
             (case nonoverlap sh d b of
                Polygon ext holes \<Rightarrow> Inr (temp @ [Polygon ext holes])
              | MultiPolygon gs \<Rightarrow> Inr (temp @ filter (\<lambda>x. area x > 1 / 1000) gs)
              | GeometryCollection \<Rightarrow> Inr temp)
           else if contains sh b d then Inr temp
           else if contains sh d b then
             (case (d, b) of
                (Polygon dext dholes, Polygon bext bholes) \<Rightarrow>
                  (if area (Polygon dext [bext]) > 1 / 1000
                   then Inr (temp @ [Polygon dext [bext]]) else Inr temp)
              | _ \<Rightarrow> Inl AttributeError)
           else if area d > 1 / 1000 then Inr (temp @ [d])
           else Inr temp))"

definition resulting_polygons_step ::
  "shapely \<Rightarrow> bool list \<Rightarrow> nat \<times> geometry \<Rightarrow> error + geometry list \<Rightarrow> error + geometry list" where
  "resulting_polygons_step sh types_bool ib acc =
     (case acc of
        Inl e \<Rightarrow> Inl e
      | Inr domain \<Rightarrow>
          (let i = fst ib; b = snd ib
           in if length types_bool \<le> i then Inl IndexError
              else if domain = [] then
                (if types_bool ! i then Inr (domain @ [b]) else Inr domain)
              else if types_bool ! i then
                Inr (snd (fold (inclusion_step sh (length domain))
                            (zip [0..<length domain] domain) (b, [])))
              else fold (exclusion_step sh b) domain (Inr [])))"

definition calc_resulting_polygons ::
  "shapely \<Rightarrow> bool list \<Rightarrow> geometry list \<Rightarrow> error + geometry list" where
  "calc_resulting_polygons sh types_bool boundary_polygons =
     fold (resulting_polygons_step sh types_bool)
       (zip [0..<length boundary_polygons] boundary_polygons) (Inr [])"

subsection \<open>Cache consistency\<close>

text \<open>
  The one-slot cache of a component is consistent when it is empty or holds, for the
  cached positions, the output that the computation gives for them. A new component
  has an empty cache, and every call keeps the cache consistent.
\<close>

definition mp_cache_consistent :: "MultiPolygonBoundaryComp \<Rightarrow> bool" where
  "mp_cache_consistent self =
     (case mp_cache_input self of
        None \<Rightarrow> mp_cache_output self = None
      | Some (cx, cy) \<Rightarrow>
          mp_cache_output self = Some (MultiPolygon_compute (mp_edge_table self) cx cy))"

definition pb_cache_consistent :: "PolygonBoundaryComp \<Rightarrow> bool" where
  "pb_cache_consistent self =
     (case pb_cache_input self of
        None \<Rightarrow> pb_cache_output self = None
      | Some (cx, cy) \<Rightarrow>
          pb_cache_output self = Some (Polygon_compute (pb_boundary_properties self) cx cy))"

text \<open>
  A cached key fits position arrays of \<open>n\<close> entries when the cache is empty or the
  key's rows have \<open>n\<close> entries, as for all calls with the \<open>n_wt\<close> positions of the
  component's turbines.
\<close>

definition key_fits :: "nat \<Rightarrow> (real list \<times> real list) option \<Rightarrow> bool" where
  "key_fits n key =
     (case key of None \<Rightarrow> True | Some (cx, cy) \<Rightarrow> length cx = n \<and> length cy = n)"

subsection \<open>The shape of the Jacobian of the convex component\<close>

text \<open>
  The matrix that the double loop of \<open>calculate_gradients\<close> has filled after \<open>k\<close>
  assignments: \<open>n_wt * nVertices\<close> rows of length \<open>n_wt\<close>, the value \<open>v (r mod nVertices)\<close>
  in row \<open>r < k\<close> and column \<open>r div nVertices\<close>, and 0 elsewhere.
\<close>

definition face_matrix :: "nat \<Rightarrow> nat \<Rightarrow> nat \<Rightarrow> (nat \<Rightarrow> real) \<Rightarrow> real list list \<Rightarrow> bool" where
  "face_matrix n_wt nVertices k v M \<longleftrightarrow>
     length M = n_wt * nVertices \<and> (\<forall>r < n_wt * nVertices. length (M ! r) = n_wt) \<and>
     (\<forall>r < n_wt * nVertices. \<forall>c < n_wt.
        M ! r ! c = (if r < k \<and> c = r div nVertices then v (r mod nVertices) else 0))"

subsection \<open>The nearest feature of an edge, in the words of the specification\<close>





subsection \<open>Concrete boundaries\<close>

text \<open>The square ring of the specification's scenario and its edge arrays.\<close>

definition square_ring :: "vec list" where
  "square_ring = [(0, 0), (10, 0), (10, 10), (0, 10)]"

definition square_bp :: boundary_properties where
  "square_bp =
     \<lparr>bp_A = [(0, 0), (10, 0), (10, 10), (0, 10)],
      bp_B = [(10, 0), (10, 10), (0, 10), (0, 0)],
      bp_AB = [(10, 0), (0, 10), (- 10, 0), (0, - 10)],
      bp_AB_len = [10, 10, 10, 10],
      bp_edge_unit_normal = [(0, 1), (- 1, 0), (0, - 1), (1, 0)],
      bp_A_normal = [(1 / 2, 1 / 2), (- (1 / 2), 1 / 2), (- (1 / 2), - (1 / 2)), (1 / 2, - (1 / 2))],
      bp_B_normal = [(- (1 / 2), 1 / 2), (- (1 / 2), - (1 / 2)), (1 / 2, - (1 / 2)), (1 / 2, 1 / 2)]\<rparr>"

text \<open>Multi-polygon components over the square, with and without relaxation.\<close>

definition relaxed_square :: MultiPolygonBoundaryComp where
  "relaxed_square =
     \<lparr>mp_n_wt = 1, mp_boundary_properties = square_bp,
      mp_boundary_properties_list_all = Some square_bp,
      mp_relaxation = Some (2, 10), mp_method = ''nearest'',
      mp_cache_input = None, mp_cache_output = None\<rparr>"

definition plain_square :: MultiPolygonBoundaryComp where
  "plain_square =
     \<lparr>mp_n_wt = 1, mp_boundary_properties = square_bp,
      mp_boundary_properties_list_all = Some square_bp,
      mp_relaxation = None, mp_method = ''nearest'',
      mp_cache_input = None, mp_cache_output = None\<rparr>"

text \<open>The polygon component that the constructor builds from the square ring.\<close>

definition polygon_square :: PolygonBoundaryComp where
  "polygon_square =
     \<lparr>pb_n_wt = 1, pb_xy_boundary = [(0, 0), (10, 0), (10, 10), (0, 10), (0, 0)],
      pb_boundary_properties = square_bp, pb_relaxation = None,
      pb_cache_input = None, pb_cache_output = None\<rparr>"

text \<open>
  The polygon component over the square with relaxation enabled, whose cache holds
  the key \<open>([5], [2])\<close> and an output that the computation does not give.
\<close>

definition stale_polygon :: PolygonBoundaryComp where
  "stale_polygon =
     \<lparr>pb_n_wt = 1, pb_xy_boundary = [(0, 0), (10, 0), (10, 10), (0, 10), (0, 0)],
      pb_boundary_properties = square_bp, pb_relaxation = Some (2, 10),
      pb_cache_input = Some ([5], [2]), pb_cache_output = Some ([0], [0], [0])\<rparr>"

text \<open>
  The hull of the square's corners: all four are hull vertices, and
  \<open>scipy.spatial.ConvexHull\<close> lists them counter-clockwise from some corner \<open>k\<close>.
  The convex component that the constructor builds for \<open>k = 0\<close> and one turbine.
\<close>

definition square_hull :: "nat \<Rightarrow> vec list \<Rightarrow> error + nat list" where
  "square_hull k pts = Inr (rotate k [0, 1, 2, 3])"

definition convex_square :: ConvexBoundaryComp where
  "convex_square =
     \<lparr>cb_n_wt = 1, cb_boundary_type = ''convex_hull'',
      cb_xy_boundary = [(0, 0), (10, 0), (10, 10), (0, 10), (0, 0)],
      cb_nVertices = 4,
      cb_unit_normals = [(0, - 1), (1, 0), (0, 1), (- 1, 0)],
      cb_dfaceDistance_dx = [[0], [- 1], [0], [1]],
      cb_dfaceDistance_dy = [[1], [0], [- 1], [0]]\<rparr>"

text \<open>The circle of the specification's scenario.\<close>

definition circle10 :: CircleBoundaryComp where
  "circle10 = \<lparr>cc_n_wt = 1, cc_center = (0, 0), cc_radius = 10\<rparr>"

text \<open>An inclusion zone of area \<open>0.0001\<close>.\<close>

definition small_zone :: geometry where
  "small_zone = Polygon [(0, 0), (1 / 100, 0), (1 / 100, 1 / 100), (0, 1 / 100), (0, 0)] []"

section \<open>Verified properties\<close>

subsection \<open>Relaxation schedule\<close>

lemma calc_relaxation_eq:
  "calc_relaxation (rate, horizon) n = max 0 (rate * (horizon - (real n + 1)))"
  by (simp add: calc_relaxation_def Let_def)

text \<open>
  C5, as stated, fails: the offset at iteration count 0 is \<open>rate * (horizon - 1)\<close>,
  not \<open>rate * horizon\<close>, because the source evaluates the schedule at
  \<open>n_grad_eval + 1\<close>; and for a negative rate the offset is positive and grows after
  the horizon.
\<close>

theorem calc_relaxation_counterexample:
  "calc_relaxation (1, 10) 0 \<noteq> 1 * 10
   \<and> \<not> calc_relaxation (- 1, 10) 11 \<le> calc_relaxation (- 1, 10) 10"
  by (simp add: calc_relaxation_eq)

text \<open>
  C5 (amended): for every configuration \<open>(rate, horizon)\<close> and every count \<open>n\<close> of
  gradient evaluations the offset is \<open>max 0 (rate * (horizon - (n + 1)))\<close> and is never
  negative; for a non-negative rate it equals \<open>rate * (horizon - 1)\<close> at count 0 when
  the horizon is at least 1, decays linearly while \<open>n + 1 \<le> horizon\<close>, is 0 from
  \<open>n + 1 = horizon\<close> on, and is monotonically non-increasing in \<open>n\<close>.
\<close>

theorem calc_relaxation_schedule:
  "0 \<le> calc_relaxation (rate, horizon) n
   \<and> calc_relaxation (rate, horizon) n = max 0 (rate * (horizon - (real n + 1)))
   \<and> (0 \<le> rate \<longrightarrow>
        (1 \<le> horizon \<longrightarrow> calc_relaxation (rate, horizon) 0 = rate * (horizon - 1))
      \<and> (real n + 1 \<le> horizon \<longrightarrow>
            calc_relaxation (rate, horizon) n = rate * horizon - rate * (real n + 1))
      \<and> (horizon \<le> real n + 1 \<longrightarrow> calc_relaxation (rate, horizon) n = 0)
      \<and> (n \<le> m \<longrightarrow> calc_relaxation (rate, horizon) m \<le> calc_relaxation (rate, horizon) n))"
proof -
  have nonneg: "0 \<le> calc_relaxation (rate, horizon) n"
    by (simp add: calc_relaxation_eq)
  have shape: "calc_relaxation (rate, horizon) n = max 0 (rate * (horizon - (real n + 1)))"
    by (rule calc_relaxation_eq)
  have rest: "(1 \<le> horizon \<longrightarrow> calc_relaxation (rate, horizon) 0 = rate * (horizon - 1))
      \<and> (real n + 1 \<le> horizon \<longrightarrow>
            calc_relaxation (rate, horizon) n = rate * horizon - rate * (real n + 1))
      \<and> (horizon \<le> real n + 1 \<longrightarrow> calc_relaxation (rate, horizon) n = 0)
      \<and> (n \<le> m \<longrightarrow> calc_relaxation (rate, horizon) m \<le> calc_relaxation (rate, horizon) n)"
    if r: "0 \<le> rate"
  proof (intro conjI impI)
    assume "1 \<le> horizon"
    then have "0 \<le> rate * (horizon - 1)" using r by simp
    then show "calc_relaxation (rate, horizon) 0 = rate * (horizon - 1)"
      by (simp add: calc_relaxation_eq max_def)
  next
    assume "real n + 1 \<le> horizon"
    then have "0 \<le> rate * (horizon - (real n + 1))" using r by simp
    then show "calc_relaxation (rate, horizon) n = rate * horizon - rate * (real n + 1)"
      by (simp add: calc_relaxation_eq max_def algebra_simps)
  next
    assume "horizon \<le> real n + 1"
    then have "rate * (horizon - (real n + 1)) \<le> 0"
      using r by (simp add: mult_nonneg_nonpos)
    then show "calc_relaxation (rate, horizon) n = 0"
      by (simp add: calc_relaxation_eq max_def)
  next
    assume "n \<le> m"
    then have "horizon - (real m + 1) \<le> horizon - (real n + 1)" by simp
    then have "rate * (horizon - (real m + 1)) \<le> rate * (horizon - (real n + 1))"
      using r by (rule mult_left_mono)
    then show "calc_relaxation (rate, horizon) m \<le> calc_relaxation (rate, horizon) n"
      by (simp add: calc_relaxation_eq max_def)
  qed
  from nonneg shape rest show ?thesis by blast
qed

theorem calc_relaxation_schedule_witness:
  "(0::real) \<le> 2 \<and> (1::real) \<le> 10 \<and> real 3 + 1 \<le> 10 \<and> (3::nat) \<le> 12 \<and> (10::real) \<le> real 12 + 1
   \<and> calc_relaxation (2, 10) 0 = 18
   \<and> calc_relaxation (2, 10) 3 = 12
   \<and> calc_relaxation (2, 10) 12 = 0
   \<and> calc_relaxation (2, 10) 12 \<le> calc_relaxation (2, 10) 3"
  using calc_relaxation_schedule [of 2 10 3 12] calc_relaxation_schedule [of 2 10 12 12]
  by simp

subsection \<open>Evaluation on the concrete boundaries\<close>

lemma sqrt_100: "sqrt 100 = 10"
  by (rule real_sqrt_unique) simp_all

lemma sqrt_400: "sqrt 400 = 20"
  by (rule real_sqrt_unique) simp_all

lemma close_square: "close_ring square_ring = [(0, 0), (10, 0), (10, 10), (0, 10), (0, 0)]"
  unfolding square_ring_def by (simp add: close_ring_def)

lemma double_area_square: "double_area [(0, 0), (10, 0), (10, 10), (0, 10), (0, 0)] = 200"
  by (simp add: double_area_def)

lemma get_edges_square:
  "get_edges square_ring True =
     Inr (square_ring, square_ring, [(10, 0), (10, 10), (0, 10), (0, 0)])"
  apply (subst get_edges.simps)
  apply (simp add: double_area_square wrong_orientation_def close_square)
  apply (simp add: square_ring_def)
  done

lemma get_boundary_properties_square:
  "get_boundary_properties square_ring True = Inr (square_ring, square_bp)"
  unfolding square_bp_def
  apply (simp add: get_boundary_properties_def get_edges_square Let_def)
  apply (simp add: square_ring_def vsub_def vec_len_def vdiv_def vadd_def roll_right_def
      roll_left_def sqrt_100)
  done

lemma edges_of_square:
  "edges_of square_bp =
     [((0, 0), (10, 0), (10, 0), 10, (0, 1), (1 / 2, 1 / 2), (- (1 / 2), 1 / 2)),
      ((10, 0), (10, 10), (0, 10), 10, (- 1, 0), (- (1 / 2), 1 / 2), (- (1 / 2), - (1 / 2))),
      ((10, 10), (0, 10), (- 10, 0), 10, (0, - 1), (- (1 / 2), - (1 / 2)), (1 / 2, - (1 / 2))),
      ((0, 10), (0, 0), (0, - 10), 10, (1, 0), (1 / 2, - (1 / 2)), (1 / 2, 1 / 2))]"
  unfolding square_bp_def by (simp add: edges_of_def)

lemma per_edge_square_5_2:
  "per_edge_distance_and_gradients [5] [2] square_bp =
     ([[2, 5, 8, 5]], [[0, - 1, 0, 1]], [[1, 0, - 1, 0]])"
  by (simp add: per_edge_distance_and_gradients_def edges_of_square
      edge_distance_and_gradient_def vsub_def dot_def Let_def)

lemma compute_square_5_2:
  "MultiPolygon_compute square_bp [5] [2] =
     ([[2, 5, 8, 5]], [[(0, 1), (- 1, 0), (0, - 1), (1, 0)]], [1])"
  by (simp add: MultiPolygon_compute_def per_edge_square_5_2 MultiPolygon_sign_def np_sign_def)

lemma mp_edge_table_update [simp]:
  "mp_edge_table (self\<lparr>mp_cache_input := ci\<rparr>) = mp_edge_table self"
  "mp_edge_table (self\<lparr>mp_cache_output := co\<rparr>) = mp_edge_table self"
  by (simp_all add: mp_edge_table_def split: option.splits)

lemma relaxed_square_fields:
  "mp_n_wt relaxed_square = 1"
  "mp_boundary_properties_list_all relaxed_square = Some square_bp"
  "mp_edge_table relaxed_square = square_bp"
  "mp_relaxation relaxed_square = Some (2, 10)"
  "mp_method relaxed_square = ''nearest''"
  "mp_cache_input relaxed_square = None"
  "mp_cache_output relaxed_square = None"
  unfolding relaxed_square_def mp_edge_table_def by simp_all

lemma plain_square_fields:
  "mp_n_wt plain_square = 1"
  "mp_boundary_properties_list_all plain_square = Some square_bp"
  "mp_edge_table plain_square = square_bp"
  "mp_relaxation plain_square = None"
  "mp_method plain_square = ''nearest''"
  "mp_cache_input plain_square = None"
  "mp_cache_output plain_square = None"
  unfolding plain_square_def mp_edge_table_def by simp_all

lemma calc_relaxed_square:
  "MultiPolygon_calc_distance_and_gradients relaxed_square [5] [2] =
     Inr (Some ([[2, 5, 8, 5]], [[(0, 1), (- 1, 0), (0, - 1), (1, 0)]], [1]),
          relaxed_square\<lparr>mp_cache_input := Some ([5], [2]),
             mp_cache_output := Some ([[2, 5, 8, 5]], [[(0, 1), (- 1, 0), (0, - 1), (1, 0)]], [1])\<rparr>)"
  by (simp add: MultiPolygon_calc_distance_and_gradients_def compute_square_5_2 edges_of_square
      relaxed_square_fields mp_edge_table_update Let_def)

lemma calc_plain_square:
  "MultiPolygon_calc_distance_and_gradients plain_square [5] [2] =
     Inr (Some ([[2, 5, 8, 5]], [[(0, 1), (- 1, 0), (0, - 1), (1, 0)]], [1]),
          plain_square\<lparr>mp_cache_input := Some ([5], [2]),
             mp_cache_output := Some ([[2, 5, 8, 5]], [[(0, 1), (- 1, 0), (0, - 1), (1, 0)]], [1])\<rparr>)"
  by (simp add: MultiPolygon_calc_distance_and_gradients_def compute_square_5_2 edges_of_square
      plain_square_fields mp_edge_table_update Let_def)

lemma plain_square_consistent: "mp_cache_consistent plain_square"
  by (simp add: mp_cache_consistent_def plain_square_fields)

lemma polygon_square_fields:
  "pb_n_wt polygon_square = 1"
  "pb_xy_boundary polygon_square = [(0, 0), (10, 0), (10, 10), (0, 10), (0, 0)]"
  "pb_boundary_properties polygon_square = square_bp"
  "pb_relaxation polygon_square = None"
  "pb_cache_input polygon_square = None"
  "pb_cache_output polygon_square = None"
  unfolding polygon_square_def by simp_all

lemma polygon_init_square: "PolygonBoundaryComp_init 1 square_ring None = Inr polygon_square"
  unfolding polygon_square_def
  by (simp add: PolygonBoundaryComp_init_def get_boundary_properties_square
      BoundaryBaseComp_init_def close_square)
     (simp add: square_ring_def)

lemma polygon_compute_square_5_2: "Polygon_compute square_bp [5] [2] = ([2], [0], [1])"
  by (simp add: Polygon_compute_def per_edge_square_5_2 np_choose_def)

lemma polygon_calc_square:
  "Polygon_calc_distance_and_gradients polygon_square [5] [2] =
     Inr (Some ([2], [0], [1]),
          polygon_square\<lparr>pb_cache_input := Some ([5], [2]), pb_cache_output := Some ([2], [0], [1])\<rparr>)"
  by (simp add: Polygon_calc_distance_and_gradients_def polygon_compute_square_5_2 edges_of_square
      polygon_square_fields choose_limit_def Let_def)

subsection \<open>Circle boundary\<close>

lemma circle10_center: "Circle_gradients circle10 [0] [0] = ([[- 1]], [[- 1]])"
  unfolding circle10_def
  apply (simp add: Circle_gradients_def Let_def)
  apply (simp add: diagflat_def)
  done

lemma circle10_outside: "Circle_gradients circle10 [20] [0] = ([[- 1]], [[0]])"
  unfolding circle10_def
  apply (simp add: Circle_gradients_def Let_def sqrt_400 arctan2_def)
  apply (simp add: diagflat_def)
  done

lemma circle10_distances:
  "Circle_distances circle10 [0] [0] = [10]" "Circle_distances circle10 [20] [0] = [- 10]"
  unfolding circle10_def
  by (simp_all add: Circle_distances_def sqrt_400)

text \<open>
  C2, as stated, fails: at the centre the gradient is not \<open>(0, 0)\<close>. The arrays \<open>dx\<close>
  and \<open>dy\<close> start at \<open>-1\<close> and the centre is outside the mask that overwrites them.
\<close>

theorem circle_center_gradient_counterexample:
  "Circle_gradients circle10 [0] [0] \<noteq> ([[0]], [[0]])"
  by (simp add: circle10_center)

text \<open>
  C2 (amended): for the circle with centre \<open>(0, 0)\<close> and radius 10, the point at the
  centre has distance 10 and gradient \<open>(-1, -1)\<close>, and the point \<open>(20, 0)\<close> has distance
  \<open>-10\<close> and gradient \<open>(-1, 0)\<close>. The gradients are the diagonals of the two matrices.
\<close>

theorem circle_scenario:
  "Circle_distances circle10 [0] [0] = [10]
   \<and> Circle_gradients circle10 [0] [0] = ([[- 1]], [[- 1]])
   \<and> Circle_distances circle10 [20] [0] = [- 10]
   \<and> Circle_gradients circle10 [20] [0] = ([[- 1]], [[0]])"
  by (simp add: circle10_center circle10_outside circle10_distances)

subsection \<open>Gradient with respect to the iteration variable\<close>

text \<open>
  C6: on the relaxed square component with \<open>(rate, horizon) = (2, 10)\<close> and the point
  \<open>(5, 2)\<close>, the third component of \<open>gradients\<close> is the horizon 10, while the reported
  distance falls by the rate 2 from one iteration count to the next (20 at count 0,
  18 at count 1): the third component is not the derivative \<open>-rate\<close> of the distance.
\<close>

theorem relaxation_gradient_is_horizon:
  "MultiPolygon_gradients smooth_max_gradient relaxed_square [5] [2] =
     Inr (([[0]], [[1]], Some [10]),
          relaxed_square\<lparr>mp_cache_input := Some ([5], [2]),
             mp_cache_output := Some ([[2, 5, 8, 5]], [[(0, 1), (- 1, 0), (0, - 1), (1, 0)]], [1])\<rparr>)
   \<and> fst (projr (MultiPolygon_distances smooth_max relaxed_square 0 [5] [2])) = [20]
   \<and> fst (projr (MultiPolygon_distances smooth_max relaxed_square 1 [5] [2])) = [18]"
  by (simp add: MultiPolygon_gradients_def MultiPolygon_distances_def calc_relaxed_square
      calc_relaxation_def relaxed_square_fields diagflat_def fancy_index_def)

subsection \<open>Zone merger\<close>

lemma area_small_zone: "area small_zone = 1 / 10000"
  unfolding small_zone_def by (simp add: double_area_def)

text \<open>
  C7: a first inclusion zone is appended to the domain without the area test that the
  later inclusion zones pass through; the zone of area \<open>0.0001\<close> is the merged domain.
\<close>

theorem small_first_zone_kept:
  "area small_zone = 1 / 10000
   \<and> \<not> area small_zone > 1 / 1000
   \<and> calc_resulting_polygons sh [True] [small_zone] = Inr [small_zone]"
  by (simp add: area_small_zone calc_resulting_polygons_def resulting_polygons_step_def)

subsection \<open>The one-slot cache\<close>

lemma bcast_all_eq_same_length:
  "length a = length b \<Longrightarrow> bcast_all_eq a b = Inr (a = b)"
  by (simp add: bcast_all_eq_def)

lemma np_all_eq_fits:
  assumes "key_fits (length x) key" "length x = length y"
  shows "np_all_eq (x, y) key = Inr (key = Some (x, y) \<or> (key = None \<and> x = []))"
proof (cases key)
  case None
  then show ?thesis using assms by auto
next
  case (Some k)
  obtain cx cy where k: "k = (cx, cy)" by (cases k)
  from assms Some k have "length x = length cx" "length y = length cy"
    by (simp_all add: key_fits_def)
  then show ?thesis
    using Some k by (auto simp: bcast_all_eq_same_length)
qed

lemma mp_calc_relaxed:
  assumes "mp_relaxation self = Some r" "length x = length y" "key_fits (length x) ci"
  shows "MultiPolygon_calc_distance_and_gradients
           (self\<lparr>mp_cache_input := ci, mp_cache_output := co\<rparr>) x y =
     (if edges_of (mp_edge_table self) = [] then Inl ValueError
      else Inr (Some (MultiPolygon_compute (mp_edge_table self) x y),
                self\<lparr>mp_cache_input := Some (x, y),
                     mp_cache_output := Some (MultiPolygon_compute (mp_edge_table self) x y)\<rparr>))"
  using assms
  by (simp add: MultiPolygon_calc_distance_and_gradients_def Let_def np_all_eq_fits)

lemma mp_calc_hit:
  assumes "mp_relaxation self = None" "mp_cache_input self = Some (x, y)"
    and "length x = length y" "mp_cache_consistent self"
  shows "MultiPolygon_calc_distance_and_gradients self x y = Inr (mp_cache_output self, self)"
    and "mp_cache_output self = Some (MultiPolygon_compute (mp_edge_table self) x y)"
  using assms
  by (simp_all add: MultiPolygon_calc_distance_and_gradients_def mp_cache_consistent_def
      bcast_all_eq_same_length)

lemma mp_calc_consistent:
  assumes "MultiPolygon_calc_distance_and_gradients self x y = Inr (out, self')"
    and "mp_cache_consistent self"
  shows "mp_cache_consistent self'"
  using assms
  by (auto simp: MultiPolygon_calc_distance_and_gradients_def mp_cache_consistent_def Let_def
      split: if_splits sum.splits)

lemma mp_calc_twice:
  assumes rel: "mp_relaxation self = None" and cons: "mp_cache_consistent self"
    and ne: "x \<noteq> []" and len: "length x = length y"
    and fits: "key_fits (length x) (mp_cache_input self)"
    and call: "MultiPolygon_calc_distance_and_gradients self x y = Inr (out, self')"
  shows "MultiPolygon_calc_distance_and_gradients self' x y = Inr (out, self')"
    and "out = Some (MultiPolygon_compute (mp_edge_table self) x y)"
proof -
  note eq = np_all_eq_fits [OF fits len]
  show "MultiPolygon_calc_distance_and_gradients self' x y = Inr (out, self')"
  proof (cases "mp_cache_input self = Some (x, y)")
    case True
    then show ?thesis using call rel len ne
      by (auto simp: MultiPolygon_calc_distance_and_gradients_def bcast_all_eq_same_length)
  next
    case False
    then have "self' = self\<lparr>mp_cache_input := Some (x, y), mp_cache_output := out\<rparr>"
      using call rel len ne
      by (auto simp: MultiPolygon_calc_distance_and_gradients_def eq Let_def split: if_splits)
    then show ?thesis using rel len
      by (simp add: MultiPolygon_calc_distance_and_gradients_def bcast_all_eq_same_length)
  qed
  show "out = Some (MultiPolygon_compute (mp_edge_table self) x y)"
  proof (cases "mp_cache_input self = Some (x, y)")
    case True
    then show ?thesis using call rel len ne cons
      by (auto simp: MultiPolygon_calc_distance_and_gradients_def bcast_all_eq_same_length
          mp_cache_consistent_def)
  next
    case False
    then show ?thesis using call rel len ne
      by (auto simp: MultiPolygon_calc_distance_and_gradients_def eq Let_def split: if_splits)
  qed
qed

lemma pb_calc_hit:
  assumes "pb_cache_input self = Some (x, y)" "length x = length y" "pb_cache_consistent self"
  shows "Polygon_calc_distance_and_gradients self x y = Inr (pb_cache_output self, self)"
    and "pb_cache_output self = Some (Polygon_compute (pb_boundary_properties self) x y)"
  using assms
  by (simp_all add: Polygon_calc_distance_and_gradients_def pb_cache_consistent_def
      bcast_all_eq_same_length)

lemma pb_calc_consistent:
  assumes "Polygon_calc_distance_and_gradients self x y = Inr (out, self')"
    and "pb_cache_consistent self"
  shows "pb_cache_consistent self'"
  using assms
  by (auto simp: Polygon_calc_distance_and_gradients_def pb_cache_consistent_def Let_def
      split: if_splits sum.splits)

lemma stale_polygon_fields:
  "pb_boundary_properties stale_polygon = square_bp"
  "pb_relaxation stale_polygon = Some (2, 10)"
  "pb_cache_input stale_polygon = Some ([5], [2])"
  "pb_cache_output stale_polygon = Some ([0], [0], [0])"
  unfolding stale_polygon_def by simp_all

text \<open>
  C8, as stated, fails for the polygon component: its \<open>calc_distance_and_gradients\<close>
  does not test \<open>self.relaxation\<close>. With relaxation enabled and the positions equal to
  the cached key it returns what the cache holds, here an output that the computation
  does not give, and leaves the component as it is; the multi-polygon method recomputes
  in the same situation.
\<close>

theorem polygon_cache_served_under_relaxation:
  "pb_relaxation stale_polygon = Some (2, 10)
   \<and> Polygon_calc_distance_and_gradients stale_polygon [5] [2]
        = Inr (Some ([0], [0], [0]), stale_polygon)
   \<and> Polygon_compute (pb_boundary_properties stale_polygon) [5] [2] = ([2], [0], [1])
   \<and> Polygon_calc_distance_and_gradients stale_polygon [5] [2]
        \<noteq> Inr (Some (Polygon_compute (pb_boundary_properties stale_polygon) [5] [2]),
               stale_polygon\<lparr>pb_cache_input := Some ([5], [2]),
                 pb_cache_output :=
                   Some (Polygon_compute (pb_boundary_properties stale_polygon) [5] [2])\<rparr>)"
  by (simp add: Polygon_calc_distance_and_gradients_def stale_polygon_fields
      bcast_all_eq_same_length polygon_compute_square_5_2)

text \<open>
  C8 (amended): the positions \<open>x\<close> and \<open>y\<close> have one length, and a cached key has that
  length too (all position arrays of a component have \<open>n_wt\<close> entries). With
  relaxation enabled, \<open>calc_distance_and_gradients\<close> of the multi-polygon component
  returns the recomputed output whatever the cache holds. With relaxation disabled and
  a consistent cache whose key is \<open>(x, y)\<close>, the call returns the cached output, which
  is the output of the computation for \<open>(x, y)\<close>, and a call repeated with the same
  positions returns the first call's output and leaves the component unchanged. The
  polygon component returns the cached output for the cached key whether relaxation
  is enabled or not, and in a consistent cache this is the output of its computation.
\<close>

theorem cache_and_relaxation:
  "(mp_relaxation self = Some r \<and> length x = length y \<and> key_fits (length x) ci \<longrightarrow>
      MultiPolygon_calc_distance_and_gradients
          (self\<lparr>mp_cache_input := ci, mp_cache_output := co\<rparr>) x y =
        (if edges_of (mp_edge_table self) = [] then Inl ValueError
         else Inr (Some (MultiPolygon_compute (mp_edge_table self) x y),
                   self\<lparr>mp_cache_input := Some (x, y),
                        mp_cache_output := Some (MultiPolygon_compute (mp_edge_table self) x y)\<rparr>)))
   \<and> (mp_relaxation self = None \<and> mp_cache_input self = Some (x, y) \<and> length x = length y
        \<and> mp_cache_consistent self \<longrightarrow>
        MultiPolygon_calc_distance_and_gradients self x y = Inr (mp_cache_output self, self)
        \<and> mp_cache_output self = Some (MultiPolygon_compute (mp_edge_table self) x y))
   \<and> (mp_relaxation self = None \<and> mp_cache_consistent self \<and> x \<noteq> [] \<and> length x = length y
        \<and> key_fits (length x) (mp_cache_input self)
        \<and> MultiPolygon_calc_distance_and_gradients self x y = Inr (out, self') \<longrightarrow>
        MultiPolygon_calc_distance_and_gradients self' x y = Inr (out, self')
        \<and> out = Some (MultiPolygon_compute (mp_edge_table self) x y))
   \<and> (pb_cache_input pself = Some (x, y) \<and> length x = length y \<and> pb_cache_consistent pself \<longrightarrow>
        Polygon_calc_distance_and_gradients pself x y = Inr (pb_cache_output pself, pself)
        \<and> pb_cache_output pself = Some (Polygon_compute (pb_boundary_properties pself) x y))"
  using mp_calc_relaxed [where self = self and r = r and ci = ci and co = co and x = x and y = y]
    mp_calc_hit [where self = self and x = x and y = y]
    mp_calc_twice [where self = self and x = x and y = y and out = out and self' = self']
    pb_calc_hit [where self = pself and x = x and y = y]
  by blast

theorem cache_and_relaxation_witness:
  "mp_relaxation relaxed_square = Some (2, 10)
   \<and> length [5 :: real] = length [2 :: real]
   \<and> key_fits (length [5 :: real]) (Some ([5], [2]))
   \<and> MultiPolygon_calc_distance_and_gradients
        (relaxed_square\<lparr>mp_cache_input := Some ([5], [2]), mp_cache_output := Some ([], [], [])\<rparr>) [5] [2]
      = Inr (Some ([[2, 5, 8, 5]], [[(0, 1), (- 1, 0), (0, - 1), (1, 0)]], [1]),
          relaxed_square\<lparr>mp_cache_input := Some ([5], [2]),
             mp_cache_output := Some ([[2, 5, 8, 5]], [[(0, 1), (- 1, 0), (0, - 1), (1, 0)]], [1])\<rparr>)
   \<and> mp_relaxation plain_square = None \<and> mp_cache_consistent plain_square \<and> [5::real] \<noteq> []
   \<and> key_fits (length [5 :: real]) (mp_cache_input plain_square)
   \<and> MultiPolygon_calc_distance_and_gradients plain_square [5] [2]
      = Inr (Some ([[2, 5, 8, 5]], [[(0, 1), (- 1, 0), (0, - 1), (1, 0)]], [1]),
          plain_square\<lparr>mp_cache_input := Some ([5], [2]),
             mp_cache_output := Some ([[2, 5, 8, 5]], [[(0, 1), (- 1, 0), (0, - 1), (1, 0)]], [1])\<rparr>)
   \<and> MultiPolygon_calc_distance_and_gradients
        (plain_square\<lparr>mp_cache_input := Some ([5], [2]),
             mp_cache_output := Some ([[2, 5, 8, 5]], [[(0, 1), (- 1, 0), (0, - 1), (1, 0)]], [1])\<rparr>) [5] [2]
      = Inr (Some ([[2, 5, 8, 5]], [[(0, 1), (- 1, 0), (0, - 1), (1, 0)]], [1]),
          plain_square\<lparr>mp_cache_input := Some ([5], [2]),
             mp_cache_output := Some ([[2, 5, 8, 5]], [[(0, 1), (- 1, 0), (0, - 1), (1, 0)]], [1])\<rparr>)
   \<and> pb_cache_consistent
        (polygon_square\<lparr>pb_cache_input := Some ([5], [2]), pb_cache_output := Some ([2], [0], [1])\<rparr>)
   \<and> Polygon_calc_distance_and_gradients
        (polygon_square\<lparr>pb_cache_input := Some ([5], [2]), pb_cache_output := Some ([2], [0], [1])\<rparr>) [5] [2]
      = Inr (Some ([2], [0], [1]),
          polygon_square\<lparr>pb_cache_input := Some ([5], [2]), pb_cache_output := Some ([2], [0], [1])\<rparr>)"
  using cache_and_relaxation [where self = relaxed_square and r = "(2, 10)"
      and ci = "Some ([5], [2])" and co = "Some ([], [], [])" and x = "[5]" and y = "[2]"]
    cache_and_relaxation [where self = plain_square and x = "[5]" and y = "[2]"
      and out = "Some ([[2, 5, 8, 5]], [[(0, 1), (- 1, 0), (0, - 1), (1, 0)]], [1])"
      and self' = "plain_square\<lparr>mp_cache_input := Some ([5], [2]),
             mp_cache_output := Some ([[2, 5, 8, 5]], [[(0, 1), (- 1, 0), (0, - 1), (1, 0)]], [1])\<rparr>"
      and pself = "polygon_square\<lparr>pb_cache_input := Some ([5], [2]),
             pb_cache_output := Some ([2], [0], [1])\<rparr>"]
  by (simp add: relaxed_square_fields plain_square_fields plain_square_consistent
      calc_plain_square compute_square_5_2 edges_of_square pb_cache_consistent_def
      polygon_square_fields polygon_compute_square_5_2 key_fits_def)

subsection \<open>Boundary normalisation\<close>

lemma close_ring_closed:
  assumes "vertices \<noteq> []"
  shows "close_ring vertices \<noteq> []" and "hd (close_ring vertices) = last (close_ring vertices)"
  using assms by (auto simp: close_ring_def)

lemma close_ring_idem: "c \<noteq> [] \<Longrightarrow> hd c = last c \<Longrightarrow> close_ring c = c"
  by (simp add: close_ring_def)

lemma double_area_swap:
  "sum_list (map (\<lambda>(a, b). (fst a - fst b) * (snd a + snd b)) (map (\<lambda>(a, b). (b, a)) zs))
     = - sum_list (map (\<lambda>(a::vec, b::vec). (fst a - fst b) * (snd a + snd b)) zs)"
  by (induction zs) (auto simp: algebra_simps)

lemma double_area_rev: "double_area (rev c) = - double_area c"
proof -
  have tl_rev: "tl (rev c) = rev (butlast c)"
    by (metis butlast_rev rev_rev_ident)
  have "zip (butlast (rev c)) (tl (rev c)) = zip (rev (tl c)) (rev (butlast c))"
    by (simp only: butlast_rev tl_rev)
  also have "\<dots> = rev (zip (tl c) (butlast c))"
    by (simp add: zip_rev)
  also have "zip (tl c) (butlast c) = map (\<lambda>(a, b). (b, a)) (zip (butlast c) (tl c))"
    by (rule zip_commute)
  finally have zips: "zip (butlast (rev c)) (tl (rev c))
      = rev (map (\<lambda>(a, b). (b, a)) (zip (butlast c) (tl c)))" .
  show ?thesis
    unfolding double_area_def zips
    by (simp only: rev_map [symmetric] sum_list_rev double_area_swap)
qed

lemma get_edges_oriented:
  assumes "c \<noteq> []" "hd c = last c" "double_area c \<noteq> 0" "\<not> wrong_orientation ccw (double_area c)"
  shows "get_edges c ccw = Inr (butlast c, butlast c, tl c)"
  using assms by (subst get_edges.simps) (simp add: close_ring_idem)

lemma get_edges_zero:
  assumes "vertices \<noteq> []" "double_area (close_ring vertices) = 0"
  shows "get_edges vertices ccw = Inl (AssertionError ''Area must be non-zero'')"
  using assms by (subst get_edges.simps) simp

lemma get_edges_nonzero:
  fixes vertices :: "vec list" and ccw :: bool
  assumes ne: "vertices \<noteq> []" and nz: "double_area (close_ring vertices) \<noteq> 0"
  defines "c \<equiv> (if wrong_orientation ccw (double_area (close_ring vertices))
                   then rev (close_ring vertices) else close_ring vertices)"
  shows "get_edges vertices ccw = Inr (butlast c, butlast c, tl c)"
    and "c \<noteq> []" and "hd c = last c"
    and "\<not> wrong_orientation ccw (double_area c)" and "double_area c \<noteq> 0"
proof -
  let ?r = "close_ring vertices"
  have r: "?r \<noteq> []" "hd ?r = last ?r" using ne by (rule close_ring_closed)+
  have rr: "rev ?r \<noteq> []" "hd (rev ?r) = last (rev ?r)"
    using r by (simp_all add: hd_rev last_rev)
  show "c \<noteq> []" "hd c = last c" using r rr by (auto simp: c_def)
  show ori: "\<not> wrong_orientation ccw (double_area c)"
    using nz by (auto simp: c_def double_area_rev wrong_orientation_def)
  show nzc: "double_area c \<noteq> 0" using nz by (auto simp: c_def double_area_rev)
  show "get_edges vertices ccw = Inr (butlast c, butlast c, tl c)"
  proof (cases "wrong_orientation ccw (double_area ?r)")
    case True
    then have "get_edges vertices ccw = get_edges (rev ?r) ccw"
      using ne nz by (subst get_edges.simps) simp
    also have "\<dots> = Inr (butlast (rev ?r), butlast (rev ?r), tl (rev ?r))"
      using rr ori nzc True by (intro get_edges_oriented) (simp_all add: c_def)
    finally show ?thesis using True by (simp add: c_def)
  next
    case False
    then show ?thesis
      using ne nz by (subst get_edges.simps) (simp add: c_def)
  qed
qed

lemma double_area_snoc:
  assumes "xs \<noteq> []"
  shows "double_area (xs @ [a]) =
           double_area xs + (fst (last xs) - fst a) * (snd (last xs) + snd a)"
proof -
  have z: "zip (butlast (xs @ [a])) (tl (xs @ [a])) = zip (butlast xs) (tl xs) @ [(last xs, a)]"
    using assms
  proof (induction xs)
    case Nil
    then show ?case by simp
  next
    case (Cons x xs)
    then show ?case by (cases xs) (auto simp: butlast_append)
  qed
  show ?thesis unfolding double_area_def z by simp
qed

lemma double_area_nonzero_butlast:
  assumes "double_area c \<noteq> 0"
  shows "butlast c \<noteq> []"
  using assms by (auto simp: double_area_def)

lemma closed_ring_edges:
  assumes "butlast c \<noteq> []" "hd c = last c"
  shows "tl c = roll_left (butlast c)" and "butlast c @ [hd (butlast c)] = c"
proof -
  from assms(1) have c: "c \<noteq> []" by auto
  then have split: "c = butlast c @ [last c]" by simp
  obtain a w where aw: "butlast c = a # w" using assms(1) by (cases "butlast c") auto
  have hd: "hd c = a" using split aw by (metis hd_append2 list.sel(1) list.distinct(1))
  have "tl c = tl (butlast c @ [last c])" using split by simp
  also have "\<dots> = w @ [last c]" using aw by simp
  finally show "tl c = roll_left (butlast c)"
    using aw hd assms(2) by (simp add: roll_left_def)
  show "butlast c @ [hd (butlast c)] = c"
    using split aw hd assms(2) by simp
qed

lemma close_ring_butlast:
  assumes "butlast c \<noteq> []" "hd c = last c"
  shows "hd (close_ring (butlast c)) = last (close_ring (butlast c))"
    and "double_area (close_ring (butlast c)) = double_area c"
proof -
  show "hd (close_ring (butlast c)) = last (close_ring (butlast c))"
    using assms(1) by (rule close_ring_closed(2))
  show "double_area (close_ring (butlast c)) = double_area c"
  proof (cases "hd (butlast c) = last (butlast c)")
    case True
    have "c = butlast c @ [last c]" using assms(1) by (metis append_butlast_last_id butlast.simps(1))
    then have "double_area c = double_area (butlast c)
        + (fst (last (butlast c)) - fst (last c)) * (snd (last (butlast c)) + snd (last c))"
      using double_area_snoc [OF assms(1), of "last c"] by simp
    moreover have "last (butlast c) = last c"
      using True closed_ring_edges(2) [OF assms] assms(1)
      by (metis last_snoc)
    ultimately show ?thesis using True by (simp add: close_ring_def)
  next
    case False
    then show ?thesis using closed_ring_edges(2) [OF assms] by (simp add: close_ring_def)
  qed
qed

text \<open>
  C4: the ring is not empty and within the bound \<open>int64_exact\<close>, so that the shoelace
  sum of an integer ring is computed without wrap-around.
  A ring whose shoelace sum is zero makes the normalisation fail with the
  assertion error "Area must be non-zero" (the specification's DegenerateGeometryError),
  in \<open>get_boundary_properties\<close> and so in the constructor. A ring with a non-zero sum
  is normalised: the result holds the vertices of the closed ring or of its reversal,
  the edges form a closed chain (each ends where the next starts, the last at the first
  vertex), the shoelace sum of the result is positive for an inclusion zone and
  negative for an exclusion zone, and the boundary the component stores is closed and
  counter-clockwise.
\<close>

theorem boundary_normalization:
  assumes ne: "vertices \<noteq> []" and bound: "int64_exact vertices"
  shows "(double_area (close_ring vertices) = 0 \<longrightarrow>
            get_boundary_properties vertices inclusion_zone
              = Inl (AssertionError ''Area must be non-zero'')
          \<and> PolygonBoundaryComp_init n_wt vertices relaxation
              = Inl (AssertionError ''Area must be non-zero''))
       \<and> (double_area (close_ring vertices) \<noteq> 0 \<longrightarrow>
            (\<exists>xy bp self.
                get_boundary_properties vertices inclusion_zone = Inr (xy, bp)
              \<and> xy \<noteq> [] \<and> bp_A bp = xy \<and> bp_B bp = roll_left xy
              \<and> (xy = butlast (close_ring vertices) \<or> xy = butlast (rev (close_ring vertices)))
              \<and> (inclusion_zone \<longrightarrow> 0 < double_area (xy @ [hd xy]))
              \<and> (\<not> inclusion_zone \<longrightarrow> double_area (xy @ [hd xy]) < 0)
              \<and> PolygonBoundaryComp_init n_wt vertices relaxation = Inr self
              \<and> hd (pb_xy_boundary self) = last (pb_xy_boundary self)
              \<and> 0 < double_area (pb_xy_boundary self)))"
proof (intro conjI impI)
  assume z: "double_area (close_ring vertices) = 0"
  show "get_boundary_properties vertices inclusion_zone
          = Inl (AssertionError ''Area must be non-zero'')"
    by (simp add: get_boundary_properties_def get_edges_zero [OF ne z])
  show "PolygonBoundaryComp_init n_wt vertices relaxation
          = Inl (AssertionError ''Area must be non-zero'')"
    by (simp add: PolygonBoundaryComp_init_def get_boundary_properties_def
        get_edges_zero [OF ne z])
next
  assume nz: "double_area (close_ring vertices) \<noteq> 0"
  define c where "c = (if wrong_orientation inclusion_zone (double_area (close_ring vertices))
                   then rev (close_ring vertices) else close_ring vertices)"
  define d where "d = (if wrong_orientation True (double_area (close_ring vertices))
                   then rev (close_ring vertices) else close_ring vertices)"
  note gc = get_edges_nonzero [OF ne nz, of inclusion_zone, folded c_def]
  note gd = get_edges_nonzero [OF ne nz, of True, folded d_def]
  have bc: "butlast c \<noteq> []" using gc(5) by (rule double_area_nonzero_butlast)
  have bd: "butlast d \<noteq> []" using gd(5) by (rule double_area_nonzero_butlast)
  obtain bp where bp: "get_boundary_properties vertices inclusion_zone = Inr (butlast c, bp)"
    and A: "bp_A bp = butlast c" and B: "bp_B bp = tl c"
    by (simp add: get_boundary_properties_def gc(1) Let_def)
  obtain bpd where bpd: "get_boundary_properties vertices True = Inr (butlast d, bpd)"
    by (simp add: get_boundary_properties_def gd(1) Let_def)
  define self where "self = \<lparr>pb_n_wt = n_wt, pb_xy_boundary = close_ring (butlast d),
      pb_boundary_properties = bpd, pb_relaxation = relaxation, pb_cache_input = None,
      pb_cache_output = None\<rparr>"
  have init: "PolygonBoundaryComp_init n_wt vertices relaxation = Inr self"
    using bd by (simp add: PolygonBoundaryComp_init_def bpd BoundaryBaseComp_init_def self_def)
  have ring: "butlast c @ [hd (butlast c)] = c"
    using bc gc(3) by (rule closed_ring_edges(2))
  have pos: "0 < double_area d"
    using gd(4,5) by (auto simp: wrong_orientation_def)
  have "butlast c \<noteq> []" by (rule bc)
  moreover have "bp_B bp = roll_left (butlast c)"
    using B closed_ring_edges(1) [OF bc gc(3)] by simp
  moreover have "butlast c = butlast (close_ring vertices) \<or> butlast c = butlast (rev (close_ring vertices))"
    by (simp add: c_def)
  moreover have "inclusion_zone \<longrightarrow> 0 < double_area (butlast c @ [hd (butlast c)])"
    using gc(4,5) by (auto simp: ring wrong_orientation_def)
  moreover have "\<not> inclusion_zone \<longrightarrow> double_area (butlast c @ [hd (butlast c)]) < 0"
    using gc(4,5) by (auto simp: ring wrong_orientation_def)
  moreover have "hd (pb_xy_boundary self) = last (pb_xy_boundary self)"
    using close_ring_butlast(1) [OF bd gd(3)] by (simp add: self_def)
  moreover have "0 < double_area (pb_xy_boundary self)"
    using close_ring_butlast(2) [OF bd gd(3)] pos by (simp add: self_def)
  ultimately show "\<exists>xy bp self.
                get_boundary_properties vertices inclusion_zone = Inr (xy, bp)
              \<and> xy \<noteq> [] \<and> bp_A bp = xy \<and> bp_B bp = roll_left xy
              \<and> (xy = butlast (close_ring vertices) \<or> xy = butlast (rev (close_ring vertices)))
              \<and> (inclusion_zone \<longrightarrow> 0 < double_area (xy @ [hd xy]))
              \<and> (\<not> inclusion_zone \<longrightarrow> double_area (xy @ [hd xy]) < 0)
              \<and> PolygonBoundaryComp_init n_wt vertices relaxation = Inr self
              \<and> hd (pb_xy_boundary self) = last (pb_xy_boundary self)
              \<and> 0 < double_area (pb_xy_boundary self)"
    using bp A init by blast
qed

lemma collinear_area: "double_area (close_ring [(0, 0), (1, 1), (2, 2)]) = 0"
  by (simp add: close_ring_def double_area_def)

lemma clockwise_square_area:
  "double_area (close_ring [(0, 0), (0, 10), (10, 10), (10, 0)]) = - 200"
  by (simp add: close_ring_def double_area_def)

lemma get_edges_clockwise_square:
  "get_edges [(0, 0), (0, 10), (10, 10), (10, 0)] True =
     Inr (square_ring, square_ring, [(10, 0), (10, 10), (0, 10), (0, 0)])"
  using get_edges_nonzero(1) [of "[(0, 0), (0, 10), (10, 10), (10, 0)]" True]
  unfolding clockwise_square_area
  by (simp add: wrong_orientation_def) (simp add: close_ring_def square_ring_def)

theorem boundary_normalization_witness:
  "square_ring \<noteq> [] \<and> int64_exact square_ring
   \<and> double_area (close_ring square_ring) \<noteq> 0
   \<and> get_boundary_properties square_ring True = Inr (square_ring, square_bp)
   \<and> PolygonBoundaryComp_init 1 square_ring None = Inr polygon_square
   \<and> hd (pb_xy_boundary polygon_square) = last (pb_xy_boundary polygon_square)
   \<and> 0 < double_area (pb_xy_boundary polygon_square)
   \<and> [(0, 0), (1, 1), (2, 2)] \<noteq> ([] :: vec list)
   \<and> int64_exact [(0, 0), (1, 1), (2, 2)]
   \<and> double_area (close_ring [(0, 0), (1, 1), (2, 2)]) = 0
   \<and> get_boundary_properties [(0, 0), (1, 1), (2, 2)] True
        = Inl (AssertionError ''Area must be non-zero'')
   \<and> PolygonBoundaryComp_init 1 [(0, 0), (1, 1), (2, 2)] None
        = Inl (AssertionError ''Area must be non-zero'')"
proof -
  have sq: "square_ring \<noteq> []" by (simp add: square_ring_def)
  have sq_bound: "int64_exact square_ring"
    by (simp add: int64_exact_def coordinate_bound_def list_max_def square_ring_def)
  have sq_area: "double_area (close_ring square_ring) \<noteq> 0"
    by (simp add: close_square double_area_square)
  have col: "[(0, 0), (1, 1), (2, 2)] \<noteq> ([] :: vec list)" by simp
  have col_bound: "int64_exact [(0, 0), (1, 1), (2, 2)]"
    by (simp add: int64_exact_def coordinate_bound_def list_max_def)
  have ring: "hd (pb_xy_boundary polygon_square) = last (pb_xy_boundary polygon_square)"
    "0 < double_area (pb_xy_boundary polygon_square)"
    by (simp_all add: polygon_square_fields double_area_square)
  from boundary_normalization [OF col col_bound, of True 1 None] collinear_area
  have "get_boundary_properties [(0, 0), (1, 1), (2, 2)] True
          = Inl (AssertionError ''Area must be non-zero'')"
    "PolygonBoundaryComp_init 1 [(0, 0), (1, 1), (2, 2)] None
          = Inl (AssertionError ''Area must be non-zero'')"
    by simp_all
  with sq sq_bound sq_area col col_bound ring collinear_area get_boundary_properties_square
    polygon_init_square
  show ?thesis by simp
qed

subsection \<open>Convex boundary\<close>

lemma fold_upt_invariant:
  assumes "P 0 s" and "\<And>k t. k < n \<Longrightarrow> P k t \<Longrightarrow> P (Suc k) (f k t)"
  shows "P n (fold f [0..<n] s)"
  using assms
proof (induction n)
  case 0
  then show ?case by simp
next
  case (Suc n)
  have "P n (fold f [0..<n] s)"
    using Suc.prems by (intro Suc.IH) auto
  then show ?case using Suc.prems(2) [of n] by simp
qed

lemma face_matrix_step:
  assumes M: "face_matrix n_wt nV (i * nV + j) v M" and i: "i < n_wt" and j: "j < nV"
  shows "face_matrix n_wt nV (Suc (i * nV + j)) v (set_entry M (i * nV + j) i (v j))"
proof -
  have lt: "i * nV + j < n_wt * nV"
  proof -
    have "i * nV + j < i * nV + nV" using j by simp
    also have "\<dots> = Suc i * nV" by simp
    also have "\<dots> \<le> n_wt * nV" using i by (intro mult_le_mono1) simp
    finally show ?thesis .
  qed
  have dm: "(i * nV + j) div nV = i" "(i * nV + j) mod nV = j" using j by simp_all
  show ?thesis
    unfolding face_matrix_def set_entry_def
  proof (intro conjI allI impI)
    show "length (M[i * nV + j := (M ! (i * nV + j))[i := v j]]) = n_wt * nV"
      using M by (simp add: face_matrix_def)
  next
    fix r assume "r < n_wt * nV"
    then show "length (M[i * nV + j := (M ! (i * nV + j))[i := v j]] ! r) = n_wt"
      using M lt by (cases "r = i * nV + j") (simp_all add: face_matrix_def)
  next
    fix r c assume r: "r < n_wt * nV" and c: "c < n_wt"
    show "M[i * nV + j := (M ! (i * nV + j))[i := v j]] ! r ! c
            = (if r < Suc (i * nV + j) \<and> c = r div nV then v (r mod nV) else 0)"
    proof (cases "r = i * nV + j")
      case True
      have len: "length M = n_wt * nV" "length (M ! (i * nV + j)) = n_wt"
        using M lt by (simp_all add: face_matrix_def)
      have old: "M ! (i * nV + j) ! c = 0"
        using M lt c by (simp add: face_matrix_def)
      show ?thesis
        using True len lt i c old dm by (simp add: nth_list_update)
    next
      case False
      have "M ! r ! c = (if r < i * nV + j \<and> c = r div nV then v (r mod nV) else 0)"
        using M r c by (simp add: face_matrix_def)
      then show ?thesis using False by (auto simp: less_Suc_eq)
    qed
  qed
qed

lemma face_matrix_fill:
  "face_matrix n_wt nV (n_wt * nV) v
     (fold (\<lambda>i. fold (\<lambda>j M. set_entry M (i * nV + j) i (v j)) [0..<nV]) [0..<n_wt]
        (replicate (n_wt * nV) (replicate n_wt 0)))"
proof -
  have "face_matrix n_wt nV (n_wt * nV) v
     (fold (\<lambda>i. fold (\<lambda>j M. set_entry M (i * nV + j) i (v j)) [0..<nV]) [0..<n_wt]
        (replicate (n_wt * nV) (replicate n_wt 0)))"
  proof (rule fold_upt_invariant [where P = "\<lambda>i M. face_matrix n_wt nV (i * nV) v M"])
    show "face_matrix n_wt nV (0 * nV) v (replicate (n_wt * nV) (replicate n_wt 0))"
      by (simp add: face_matrix_def)
  next
    fix i M assume i: "i < n_wt" and M: "face_matrix n_wt nV (i * nV) v M"
    have "face_matrix n_wt nV (i * nV + nV) v
            (fold (\<lambda>j M. set_entry M (i * nV + j) i (v j)) [0..<nV] M)"
    proof (rule fold_upt_invariant [where P = "\<lambda>j M. face_matrix n_wt nV (i * nV + j) v M"])
      show "face_matrix n_wt nV (i * nV + 0) v M" using M by simp
    next
      fix j t assume "j < nV" "face_matrix n_wt nV (i * nV + j) v t"
      then show "face_matrix n_wt nV (i * nV + Suc j) v (set_entry t (i * nV + j) i (v j))"
        using face_matrix_step [OF _ i, of nV j v t] by simp
    qed
    then show "face_matrix n_wt nV (Suc i * nV) v
            (fold (\<lambda>j M. set_entry M (i * nV + j) i (v j)) [0..<nV] M)"
      by (simp add: add.commute)
  qed
  then show ?thesis .
qed

lemma fold_pair:
  "fold (\<lambda>j (a, b). (g j a, h j b)) js (a, b) = (fold g js a, fold h js b)"
  by (induction js arbitrary: a b) auto

lemma fold_fold_pair:
  "fold (\<lambda>i. fold (\<lambda>j (a, b). (g i j a, h i j b)) js) is (a, b)
     = (fold (\<lambda>i. fold (g i) js) is a, fold (\<lambda>i. fold (h i) js) is b)"
  by (induction "is" arbitrary: a b) (auto simp: fold_pair)

lemma calculate_gradients_split:
  "calculate_gradients n_wt nV ns =
     (fold (\<lambda>i. fold (\<lambda>j M. set_entry M (i * nV + j) i
              (dot (vscale (dot (- 1, 0) (ns ! j)) (ns ! j)) (ns ! j))) [0..<nV]) [0..<n_wt]
        (replicate (n_wt * nV) (replicate n_wt 0)),
      fold (\<lambda>i. fold (\<lambda>j M. set_entry M (i * nV + j) i
              (dot (vscale (dot (0, - 1) (ns ! j)) (ns ! j)) (ns ! j))) [0..<nV]) [0..<n_wt]
        (replicate (n_wt * nV) (replicate n_wt 0)))"
  unfolding calculate_gradients_def Let_def
  by (rule fold_fold_pair)

lemma calculate_gradients_entries:
  assumes "r < n_wt * nV" "c < n_wt"
  shows "fst (calculate_gradients n_wt nV ns) ! r ! c =
           (if c = r div nV then - fst (ns ! (r mod nV)) * dot (ns ! (r mod nV)) (ns ! (r mod nV)) else 0)"
    and "snd (calculate_gradients n_wt nV ns) ! r ! c =
           (if c = r div nV then - snd (ns ! (r mod nV)) * dot (ns ! (r mod nV)) (ns ! (r mod nV)) else 0)"
    and "length (fst (calculate_gradients n_wt nV ns)) = n_wt * nV"
    and "length (snd (calculate_gradients n_wt nV ns)) = n_wt * nV"
  using face_matrix_fill [of n_wt nV "\<lambda>j. dot (vscale (dot (- 1, 0) (ns ! j)) (ns ! j)) (ns ! j)"]
    face_matrix_fill [of n_wt nV "\<lambda>j. dot (vscale (dot (0, - 1) (ns ! j)) (ns ! j)) (ns ! j)"]
    assms
  by (simp_all add: calculate_gradients_split face_matrix_def dot_def vscale_def algebra_simps)

lemma calculate_gradients_square:
  "calculate_gradients (Suc 0) 4 [(0, - 1), (1, 0), (0, 1), (- 1, 0)] =
     ([[0], [- 1], [0], [1]], [[1], [0], [- 1], [0]])"
  by code_simp

lemma boundary_and_normals_square:
  "calculate_boundary_and_normals (square_hull 0) ''convex_hull'' square_ring =
     Inr ([(0, 0), (10, 0), (10, 10), (0, 10)], 4, [(0, - 1), (1, 0), (0, 1), (- 1, 0)])"
  unfolding square_ring_def
  by (simp add: calculate_boundary_and_normals_def square_hull_def unit_normal_of_def
      vec_len_def vdiv_def sqrt_100 Let_def)

lemma convex_init_square:
  "ConvexBoundaryComp_init (square_hull 0) 1 square_ring ''convex_hull'' = Inr convex_square"
  unfolding convex_square_def
  by (simp add: ConvexBoundaryComp_init_def boundary_and_normals_square
      calculate_gradients_square BoundaryBaseComp_init_def close_ring_def)

lemma boundary_and_normals_shape:
  assumes "calculate_boundary_and_normals CH bt pts = Inr (V, nV, ns)"
  shows "nV = length V" and "ns = map (unit_normal_of V) [0..<length V]"
  using assms
  by (auto simp: calculate_boundary_and_normals_def split: sum.splits)

lemma convex_init_fields:
  assumes "ConvexBoundaryComp_init CH n_wt pts bt = Inr self"
  obtains V where "calculate_boundary_and_normals CH bt pts
                     = Inr (V, length V, map (unit_normal_of V) [0..<length V])"
    and "V \<noteq> []"
    and "cb_xy_boundary self = close_ring V"
    and "cb_nVertices self = length V"
    and "cb_unit_normals self = map (unit_normal_of V) [0..<length V]"
    and "cb_n_wt self = n_wt"
    and "(cb_dfaceDistance_dx self, cb_dfaceDistance_dy self)
           = calculate_gradients n_wt (length V) (map (unit_normal_of V) [0..<length V])"
proof -
  from assms obtain V nV ns where c: "calculate_boundary_and_normals CH bt pts = Inr (V, nV, ns)"
    by (auto simp: ConvexBoundaryComp_init_def split: sum.splits)
  note sh = boundary_and_normals_shape [OF c]
  from assms c have ne: "V \<noteq> []"
    by (auto simp: ConvexBoundaryComp_init_def BoundaryBaseComp_init_def split: if_splits)
  from assms c ne have
    "self = \<lparr>cb_n_wt = n_wt, cb_boundary_type = bt, cb_xy_boundary = close_ring V,
             cb_nVertices = nV, cb_unit_normals = ns,
             cb_dfaceDistance_dx = fst (calculate_gradients n_wt nV ns),
             cb_dfaceDistance_dy = snd (calculate_gradients n_wt nV ns)\<rparr>"
    by (auto simp: ConvexBoundaryComp_init_def BoundaryBaseComp_init_def split: prod.splits)
  then show thesis
    using that [of V] c sh ne by simp
qed

lemma unit_normal_of_unit:
  assumes "j < length V" "V ! j \<noteq> (V @ [hd V]) ! Suc j"
  defines "N \<equiv> (snd ((V @ [hd V]) ! Suc j) - snd (V ! j), - (fst ((V @ [hd V]) ! Suc j) - fst (V ! j)))"
  shows "unit_normal_of V j = vdiv N (vec_len N)" and "0 < vec_len N"
    and "dot (unit_normal_of V j) (unit_normal_of V j) = 1"
proof -
  have nxt: "(if j < length V - 1 then V ! (j + 1) else V ! 0) = (V @ [hd V]) ! Suc j"
  proof (cases "j < length V - 1")
    case True
    then have "Suc j < length V" by simp
    with True show ?thesis by (simp add: nth_append)
  next
    case False
    then have "Suc j = length V" using assms(1) by simp
    moreover have "V \<noteq> []" using assms(1) by auto
    ultimately show ?thesis using False by (simp add: nth_append hd_conv_nth)
  qed
  show u: "unit_normal_of V j = vdiv N (vec_len N)"
    unfolding unit_normal_of_def nxt N_def Let_def by simp
  have nz: "N \<noteq> (0, 0)"
    using assms(2) by (auto simp: N_def prod_eq_iff)
  then have sq: "0 < (fst N)\<^sup>2 + (snd N)\<^sup>2"
    by (cases N) (auto simp: sum_power2_gt_zero_iff)
  then show pos: "0 < vec_len N" by (simp add: vec_len_def)
  have l2: "(vec_len N)\<^sup>2 = (fst N)\<^sup>2 + (snd N)\<^sup>2"
    using sq by (simp add: vec_len_def)
  have "dot (vdiv N (vec_len N)) (vdiv N (vec_len N))
          = ((fst N)\<^sup>2 + (snd N)\<^sup>2) / (vec_len N)\<^sup>2"
    by (simp add: dot_def vdiv_def power2_eq_square add_divide_distrib)
  also have "\<dots> = 1" unfolding l2 using sq by (intro divide_self) linarith
  finally show "dot (unit_normal_of V j) (unit_normal_of V j) = 1"
    unfolding u .
qed

lemma distances_of_init:
  assumes init: "ConvexBoundaryComp_init CH n_wt pts bt = Inr self"
    and c: "calculate_boundary_and_normals CH bt pts = Inr (V, nV, ns)"
    and open_ring: "hd V \<noteq> last V"
    and len: "length x = length y"
  shows "Convex_distances self x y =
           Inr (map (\<lambda>P. map2 (\<lambda>Vj n. dot (vscale (dot (vsub Vj P) n) n) n) V ns) (zip x y))"
    and "cb_xy_boundary self = V @ [hd V]"
proof -
  note sh = boundary_and_normals_shape [OF c]
  from init c have ne: "V \<noteq> []"
    by (auto simp: ConvexBoundaryComp_init_def BoundaryBaseComp_init_def split: if_splits)
  from init c ne have f: "cb_xy_boundary self = close_ring V" "cb_unit_normals self = ns"
    by (auto simp: ConvexBoundaryComp_init_def BoundaryBaseComp_init_def split: prod.splits)
  show r: "cb_xy_boundary self = V @ [hd V]"
    using f(1) open_ring by (simp add: close_ring_def)
  show "Convex_distances self x y =
           Inr (map (\<lambda>P. map2 (\<lambda>Vj n. dot (vscale (dot (vsub Vj P) n) n) n) V ns) (zip x y))"
    using len
    by (simp add: Convex_distances_def calculate_distance_to_boundary_def r f(2) sh Let_def)
qed

lemma boundary_and_normals_square_1:
  "calculate_boundary_and_normals (square_hull (Suc 0)) ''convex_hull'' square_ring =
     Inr ([(10, 0), (10, 10), (0, 10), (0, 0)], 4, [(1, 0), (0, 1), (- 1, 0), (0, - 1)])"
  unfolding square_ring_def
  by (simp add: calculate_boundary_and_normals_def square_hull_def unit_normal_of_def
      vec_len_def vdiv_def sqrt_100 Let_def)

lemma boundary_and_normals_square_2:
  "calculate_boundary_and_normals (square_hull (Suc (Suc 0))) ''convex_hull'' square_ring =
     Inr ([(10, 10), (0, 10), (0, 0), (10, 0)], 4, [(0, 1), (- 1, 0), (0, - 1), (1, 0)])"
  unfolding square_ring_def
  by (simp add: calculate_boundary_and_normals_def square_hull_def unit_normal_of_def
      vec_len_def vdiv_def sqrt_100 Let_def)

lemma boundary_and_normals_square_3:
  "calculate_boundary_and_normals (square_hull (Suc (Suc (Suc 0)))) ''convex_hull'' square_ring =
     Inr ([(0, 10), (0, 0), (10, 0), (10, 10)], 4, [(- 1, 0), (0, - 1), (1, 0), (0, 1)])"
  unfolding square_ring_def
  by (simp add: calculate_boundary_and_normals_def square_hull_def unit_normal_of_def
      vec_len_def vdiv_def sqrt_100 Let_def)

lemma square_hull_scenario:
  assumes k: "k < 4"
    and init: "ConvexBoundaryComp_init (square_hull k) n_wt square_ring ''convex_hull'' = Inr self"
  shows "Convex_distances self [5, 15] [5, 5] = Inr [[5, 5, 5, 5], rotate k [5, - 5, 5, 15]]"
proof -
  from k consider "k = 0" | "k = Suc 0" | "k = Suc (Suc 0)" | "k = Suc (Suc (Suc 0))"
    by linarith
  then show ?thesis
  proof cases
    case 1
    show ?thesis
      using distances_of_init(1) [OF init [unfolded 1] boundary_and_normals_square, of "[5, 15]" "[5, 5]"]
      by (simp add: 1 dot_def vscale_def vsub_def)
  next
    case 2
    show ?thesis
      using distances_of_init(1) [OF init [unfolded 2] boundary_and_normals_square_1, of "[5, 15]" "[5, 5]"]
      by (simp add: 2 dot_def vscale_def vsub_def)
  next
    case 3
    show ?thesis
      using distances_of_init(1) [OF init [unfolded 3] boundary_and_normals_square_2, of "[5, 15]" "[5, 5]"]
      by (simp add: 3 dot_def vscale_def vsub_def)
  next
    case 4
    show ?thesis
      using distances_of_init(1) [OF init [unfolded 4] boundary_and_normals_square_3, of "[5, 15]" "[5, 5]"]
      by (simp add: 4 dot_def vscale_def vsub_def)
  qed
qed

lemma convex_distances_entries:
  assumes init: "ConvexBoundaryComp_init CH n_wt pts bt = Inr self"
    and len: "length (cb_xy_boundary self) = Suc (cb_nVertices self)"
    and xy: "length x = length y"
  obtains D where "Convex_distances self x y = Inr D"
    and "length D = length x"
    and "\<And>i. i < length D \<Longrightarrow> length (D ! i) = cb_nVertices self"
    and "\<And>i j. i < length D \<Longrightarrow> j < cb_nVertices self \<Longrightarrow>
           cb_xy_boundary self ! j \<noteq> cb_xy_boundary self ! Suc j \<Longrightarrow>
           D ! i ! j =
             dot (vsub (cb_xy_boundary self ! j) (x ! i, y ! i))
                 (snd (cb_xy_boundary self ! Suc j) - snd (cb_xy_boundary self ! j),
                  - (fst (cb_xy_boundary self ! Suc j) - fst (cb_xy_boundary self ! j)))
             / vec_len (snd (cb_xy_boundary self ! Suc j) - snd (cb_xy_boundary self ! j),
                        - (fst (cb_xy_boundary self ! Suc j) - fst (cb_xy_boundary self ! j)))"
proof -
  from init obtain V where
    c: "calculate_boundary_and_normals CH bt pts
          = Inr (V, length V, map (unit_normal_of V) [0..<length V])"
    and ne: "V \<noteq> []" and ring0: "cb_xy_boundary self = close_ring V"
    and nV: "cb_nVertices self = length V"
    by (rule convex_init_fields)
  have open_ring: "hd V \<noteq> last V"
    using len ring0 nV by (auto simp: close_ring_def split: if_splits)
  note d = distances_of_init [OF init c open_ring xy]
  define D where "D = map (\<lambda>P. map2 (\<lambda>Vj n. dot (vscale (dot (vsub Vj P) n) n) n) V
                       (map (unit_normal_of V) [0..<length V])) (zip x y)"
  have 1: "Convex_distances self x y = Inr D" unfolding D_def by (rule d(1))
  have 2: "length D = length x" using xy by (simp add: D_def)
  have 3: "length (D ! i) = cb_nVertices self" if "i < length D" for i
    using that by (simp add: D_def nV)
  have 4: "D ! i ! j =
             dot (vsub (cb_xy_boundary self ! j) (x ! i, y ! i))
                 (snd (cb_xy_boundary self ! Suc j) - snd (cb_xy_boundary self ! j),
                  - (fst (cb_xy_boundary self ! Suc j) - fst (cb_xy_boundary self ! j)))
             / vec_len (snd (cb_xy_boundary self ! Suc j) - snd (cb_xy_boundary self ! j),
                        - (fst (cb_xy_boundary self ! Suc j) - fst (cb_xy_boundary self ! j)))"
    if i: "i < length D" and j: "j < cb_nVertices self"
      and e: "cb_xy_boundary self ! j \<noteq> cb_xy_boundary self ! Suc j" for i j
  proof -
    have jV: "j < length V" using j nV by simp
    have rj: "cb_xy_boundary self ! j = V ! j" using jV by (simp add: d(2) nth_append)
    have e': "V ! j \<noteq> (V @ [hd V]) ! Suc j" using e rj by (simp add: d(2))
    define N where "N = (snd ((V @ [hd V]) ! Suc j) - snd (V ! j),
                         - (fst ((V @ [hd V]) ! Suc j) - fst (V ! j)))"
    note u = unit_normal_of_unit [OF jV e', folded N_def]
    have "D ! i ! j = dot (vscale (dot (vsub (V ! j) (x ! i, y ! i)) (unit_normal_of V j))
                         (unit_normal_of V j)) (unit_normal_of V j)"
      using i jV by (simp add: D_def)
    also have "\<dots> = dot (vsub (V ! j) (x ! i, y ! i)) (unit_normal_of V j)
                        * dot (unit_normal_of V j) (unit_normal_of V j)"
      by (simp add: dot_def vscale_def algebra_simps)
    also have "\<dots> = dot (vsub (V ! j) (x ! i, y ! i)) (vdiv N (vec_len N))"
      using u(1,3) by simp
    also have "\<dots> = dot (vsub (V ! j) (x ! i, y ! i)) N / vec_len N"
      by (simp add: dot_def vdiv_def add_divide_distrib)
    finally show ?thesis
      using jV by (simp add: N_def d(2) nth_append [of V "[hd V]" j])
  qed
  from 1 2 3 4 show thesis by (rule that)
qed

text \<open>
  C3: for a convex component whose boundary was closed by appending the first vertex
  (every hull with two distinct vertices) and position arrays \<open>x\<close> and \<open>y\<close> of one
  length, \<open>distances\<close> returns one row per point with
  one entry per face, and the entry of a face of non-zero length is the signed
  perpendicular distance of the point to the line of that face: the product of
  \<open>vertex - point\<close> with the face vector turned by a right angle, divided by the face's
  length. It is positive on the left of the face, the inside of a counter-clockwise
  hull. For the square ring, whichever corner the hull starts at, the point \<open>(5, 5)\<close>
  has distance 5 to every face and the point \<open>(15, 5)\<close> has distances 5, -5, 5 and 15
  to the bottom, right, top and left faces.
\<close>

theorem convex_distances_every_edge:
  "(ConvexBoundaryComp_init CH n_wt pts bt = Inr self
      \<and> length (cb_xy_boundary self) = Suc (cb_nVertices self)
      \<and> length x = length y \<longrightarrow>
      (\<exists>D. Convex_distances self x y = Inr D
         \<and> length D = length x
         \<and> (i < length D \<longrightarrow>
              length (D ! i) = cb_nVertices self
              \<and> (j < cb_nVertices self
                   \<and> cb_xy_boundary self ! j \<noteq> cb_xy_boundary self ! Suc j \<longrightarrow>
                   D ! i ! j =
                     dot (vsub (cb_xy_boundary self ! j) (x ! i, y ! i))
                         (snd (cb_xy_boundary self ! Suc j) - snd (cb_xy_boundary self ! j),
                          - (fst (cb_xy_boundary self ! Suc j) - fst (cb_xy_boundary self ! j)))
                     / vec_len (snd (cb_xy_boundary self ! Suc j) - snd (cb_xy_boundary self ! j),
                          - (fst (cb_xy_boundary self ! Suc j) - fst (cb_xy_boundary self ! j)))))))
   \<and> (k < 4 \<and> ConvexBoundaryComp_init (square_hull k) m square_ring ''convex_hull'' = Inr sq \<longrightarrow>
        Convex_distances sq [5, 15] [5, 5] = Inr [[5, 5, 5, 5], rotate k [5, - 5, 5, 15]])"
proof (intro conjI impI)
  assume a: "ConvexBoundaryComp_init CH n_wt pts bt = Inr self
      \<and> length (cb_xy_boundary self) = Suc (cb_nVertices self)
      \<and> length x = length y"
  then obtain D where D: "Convex_distances self x y = Inr D"
    "length D = length x"
    "\<And>i. i < length D \<Longrightarrow> length (D ! i) = cb_nVertices self"
    "\<And>i j. i < length D \<Longrightarrow> j < cb_nVertices self \<Longrightarrow>
           cb_xy_boundary self ! j \<noteq> cb_xy_boundary self ! Suc j \<Longrightarrow>
           D ! i ! j =
             dot (vsub (cb_xy_boundary self ! j) (x ! i, y ! i))
                 (snd (cb_xy_boundary self ! Suc j) - snd (cb_xy_boundary self ! j),
                  - (fst (cb_xy_boundary self ! Suc j) - fst (cb_xy_boundary self ! j)))
             / vec_len (snd (cb_xy_boundary self ! Suc j) - snd (cb_xy_boundary self ! j),
                        - (fst (cb_xy_boundary self ! Suc j) - fst (cb_xy_boundary self ! j)))"
    using convex_distances_entries [of CH n_wt pts bt self x y] by blast
  then show "\<exists>D. Convex_distances self x y = Inr D
         \<and> length D = length x
         \<and> (i < length D \<longrightarrow>
              length (D ! i) = cb_nVertices self
              \<and> (j < cb_nVertices self
                   \<and> cb_xy_boundary self ! j \<noteq> cb_xy_boundary self ! Suc j \<longrightarrow>
                   D ! i ! j =
                     dot (vsub (cb_xy_boundary self ! j) (x ! i, y ! i))
                         (snd (cb_xy_boundary self ! Suc j) - snd (cb_xy_boundary self ! j),
                          - (fst (cb_xy_boundary self ! Suc j) - fst (cb_xy_boundary self ! j)))
                     / vec_len (snd (cb_xy_boundary self ! Suc j) - snd (cb_xy_boundary self ! j),
                          - (fst (cb_xy_boundary self ! Suc j) - fst (cb_xy_boundary self ! j)))))"
    by blast
next
  assume "k < 4 \<and> ConvexBoundaryComp_init (square_hull k) m square_ring ''convex_hull'' = Inr sq"
  then show "Convex_distances sq [5, 15] [5, 5] = Inr [[5, 5, 5, 5], rotate k [5, - 5, 5, 15]]"
    using square_hull_scenario by blast
qed

lemma convex_square_fields:
  "cb_n_wt convex_square = 1"
  "cb_xy_boundary convex_square = [(0, 0), (10, 0), (10, 10), (0, 10), (0, 0)]"
  "cb_nVertices convex_square = 4"
  "cb_unit_normals convex_square = [(0, - 1), (1, 0), (0, 1), (- 1, 0)]"
  "cb_dfaceDistance_dx convex_square = [[0], [- 1], [0], [1]]"
  "cb_dfaceDistance_dy convex_square = [[1], [0], [- 1], [0]]"
  unfolding convex_square_def by simp_all

theorem convex_distances_every_edge_witness:
  "ConvexBoundaryComp_init (square_hull 0) 1 square_ring ''convex_hull'' = Inr convex_square
   \<and> length (cb_xy_boundary convex_square) = Suc (cb_nVertices convex_square)
   \<and> length [5, 15 :: real] = length [5, 5 :: real]
   \<and> (0 :: nat) < 4
   \<and> Convex_distances convex_square [5, 15] [5, 5] = Inr [[5, 5, 5, 5], [5, - 5, 5, 15]]
   \<and> (1 :: nat) < length [[5, 5, 5, 5], [5, - 5, 5, 15 :: real]]
   \<and> 1 < cb_nVertices convex_square
   \<and> cb_xy_boundary convex_square ! 1 \<noteq> cb_xy_boundary convex_square ! Suc 1
   \<and> [[5, 5, 5, 5], [5, - 5, 5, 15]] ! 1 ! 1
        = dot (vsub (10, 0) (15, 5)) (10, 0) / vec_len (10, 0)"
proof -
  have len: "length (cb_xy_boundary convex_square) = Suc (cb_nVertices convex_square)"
    by (simp add: convex_square_fields)
  have k: "(0 :: nat) < 4" by simp
  from convex_distances_every_edge [where k = 0 and m = 1 and sq = convex_square
      and CH = "square_hull 0" and n_wt = 1 and pts = square_ring and bt = "''convex_hull''"
      and self = convex_square and x = "[5, 15]" and y = "[5, 5]" and i = 1 and j = 1]
    convex_init_square len
  have d: "Convex_distances convex_square [5, 15] [5, 5] = Inr [[5, 5, 5, 5], [5, - 5, 5, 15]]"
    by simp
  have e: "[[5, 5, 5, 5], [5, - 5, 5, 15]] ! 1 ! 1
        = dot (vsub (10, 0) (15, 5)) (10, 0) / vec_len (10, 0 :: real)"
    by (simp add: dot_def vsub_def vec_len_def sqrt_100)
  show ?thesis
    using convex_init_square len d e by (simp add: convex_square_fields)
qed

text \<open>
  C10: \<open>gradients\<close> of the convex component does not depend on the positions: any two
  calls return the same pair, and for a component built by the constructor this pair
  is the one that \<open>calculate_gradients\<close> filled from the unit normals; its entry in
  row \<open>i * nVertices + j\<close> and column \<open>i\<close> is the negated component of the unit
  normal of face \<open>j\<close> times the normal's squared length, and every other entry is 0.
\<close>

theorem convex_gradients_constant:
  "Convex_gradients self xa ya = Convex_gradients self xb yb
   \<and> (ConvexBoundaryComp_init CH n_wt pts bt = Inr self \<longrightarrow>
        Convex_gradients self xa ya
          = calculate_gradients n_wt (cb_nVertices self) (cb_unit_normals self)
        \<and> (r < n_wt * cb_nVertices self \<and> c < n_wt \<longrightarrow>
             fst (Convex_gradients self xa ya) ! r ! c =
               (if c = r div cb_nVertices self
                then - fst (cb_unit_normals self ! (r mod cb_nVertices self))
                       * dot (cb_unit_normals self ! (r mod cb_nVertices self))
                             (cb_unit_normals self ! (r mod cb_nVertices self))
                else 0)
           \<and> snd (Convex_gradients self xa ya) ! r ! c =
               (if c = r div cb_nVertices self
                then - snd (cb_unit_normals self ! (r mod cb_nVertices self))
                       * dot (cb_unit_normals self ! (r mod cb_nVertices self))
                             (cb_unit_normals self ! (r mod cb_nVertices self))
                else 0)))"
proof (intro conjI impI)
  show "Convex_gradients self xa ya = Convex_gradients self xb yb"
    by (simp add: Convex_gradients_def)
next
  assume init: "ConvexBoundaryComp_init CH n_wt pts bt = Inr self"
  then obtain V where nV: "cb_nVertices self = length V"
    and ns: "cb_unit_normals self = map (unit_normal_of V) [0..<length V]"
    and g: "(cb_dfaceDistance_dx self, cb_dfaceDistance_dy self)
           = calculate_gradients n_wt (length V) (map (unit_normal_of V) [0..<length V])"
    by (rule convex_init_fields)
  show eq: "Convex_gradients self xa ya
          = calculate_gradients n_wt (cb_nVertices self) (cb_unit_normals self)"
    by (simp add: Convex_gradients_def g nV ns)
  assume rc: "r < n_wt * cb_nVertices self \<and> c < n_wt"
  show "fst (Convex_gradients self xa ya) ! r ! c =
               (if c = r div cb_nVertices self
                then - fst (cb_unit_normals self ! (r mod cb_nVertices self))
                       * dot (cb_unit_normals self ! (r mod cb_nVertices self))
                             (cb_unit_normals self ! (r mod cb_nVertices self))
                else 0)"
    unfolding eq using rc by (intro calculate_gradients_entries(1)) simp_all
  show "snd (Convex_gradients self xa ya) ! r ! c =
               (if c = r div cb_nVertices self
                then - snd (cb_unit_normals self ! (r mod cb_nVertices self))
                       * dot (cb_unit_normals self ! (r mod cb_nVertices self))
                             (cb_unit_normals self ! (r mod cb_nVertices self))
                else 0)"
    unfolding eq using rc by (intro calculate_gradients_entries(2)) simp_all
qed

theorem convex_gradients_constant_witness:
  "ConvexBoundaryComp_init (square_hull 0) 1 square_ring ''convex_hull'' = Inr convex_square
   \<and> (1 :: nat) < 1 * cb_nVertices convex_square \<and> (0 :: nat) < 1
   \<and> Convex_gradients convex_square [5, 15] [5, 5] = ([[0], [- 1], [0], [1]], [[1], [0], [- 1], [0]])
   \<and> Convex_gradients convex_square [1, 2] [3, 4] = ([[0], [- 1], [0], [1]], [[1], [0], [- 1], [0]])
   \<and> calculate_gradients 1 (cb_nVertices convex_square) (cb_unit_normals convex_square)
        = ([[0], [- 1], [0], [1]], [[1], [0], [- 1], [0]])
   \<and> fst (Convex_gradients convex_square [5, 15] [5, 5]) ! 1 ! 0 = - 1"
  using convex_gradients_constant [where self = convex_square and xa = "[5, 15]" and ya = "[5, 5]"
      and xb = "[1, 2]" and yb = "[3, 4]" and CH = "square_hull 0" and n_wt = 1
      and pts = square_ring and bt = "''convex_hull''" and r = 1 and c = 0]
    convex_init_square
  by (simp add: convex_square_fields Convex_gradients_def calculate_gradients_square)

subsection \<open>Nearest feature of the polygon boundary\<close>



lemma roll_lengths [simp]: "length (roll_right v) = length v" "length (roll_left v) = length v"
  by (auto simp: roll_right_def roll_left_def split: list.splits)


lemma vec_len_nonneg [simp]: "0 \<le> vec_len v"
  by (simp add: vec_len_def)

















subsection \<open>The repair step\<close>

lemma keys_differ: "x_key \<noteq> y_key"
  by (simp add: x_key_def y_key_def)

lemma np_diag_diagflat: "np_diag (diagflat v) = v"
proof (rule nth_equalityI)
  show "length (np_diag (diagflat v)) = length v"
    by (simp add: np_diag_def diagflat_def)
  fix i assume "i < length (np_diag (diagflat v))"
  then have "i < length v" by (simp add: np_diag_def diagflat_def)
  then show "np_diag (diagflat v) ! i = v ! i"
    by (simp add: np_diag_def diagflat_def)
qed

lemma masked_step_nth:
  "i < length x \<Longrightarrow> \<not> dists ! i < 0 \<Longrightarrow> masked_step x dx dists pad ! i = x ! i"
  by (simp add: masked_step_def)

lemma masked_step_length: "length (masked_step x dx dists pad) = length x"
  by (simp add: masked_step_def)

lemma masked_step_feasible:
  assumes "length dists = length x" "list_all (\<lambda>d. 0 \<le> d) dists"
  shows "masked_step x dx dists pad = x"
proof (rule nth_equalityI)
  show "length (masked_step x dx dists pad) = length x" by (rule masked_step_length)
  fix i assume "i < length (masked_step x dx dists pad)"
  then have i: "i < length x" by (simp add: masked_step_length)
  then have "\<not> dists ! i < 0"
    using assms by (simp add: list_all_length not_less)
  with i show "masked_step x dx dists pad ! i = x ! i" by (rule masked_step_nth)
qed


lemma polygon_calc_cases:
  assumes "Polygon_calc_distance_and_gradients self x y = Inr (out, self1)"
  shows "length x = length y"
    and "(self1 = self \<and> out = pb_cache_output self
            \<and> np_all_eq (x, y) (pb_cache_input self) = Inr True)
         \<or> (pb_cache_input self1 = Some (x, y) \<and> pb_cache_output self1 = out
            \<and> out = Some (Polygon_compute (pb_boundary_properties self) x y)
            \<and> pb_boundary_properties self1 = pb_boundary_properties self)"
proof -
  show len: "length x = length y"
    using assms by (simp add: Polygon_calc_distance_and_gradients_def split: if_splits)
  obtain hit where h: "np_all_eq (x, y) (pb_cache_input self) = Inr hit"
    using assms len
    by (cases "np_all_eq (x, y) (pb_cache_input self)")
       (simp_all add: Polygon_calc_distance_and_gradients_def)
  show "(self1 = self \<and> out = pb_cache_output self
            \<and> np_all_eq (x, y) (pb_cache_input self) = Inr True)
         \<or> (pb_cache_input self1 = Some (x, y) \<and> pb_cache_output self1 = out
            \<and> out = Some (Polygon_compute (pb_boundary_properties self) x y)
            \<and> pb_boundary_properties self1 = pb_boundary_properties self)"
  proof (cases hit)
    case True
    have "Polygon_calc_distance_and_gradients self x y = Inr (pb_cache_output self, self)"
      using len h True by (simp add: Polygon_calc_distance_and_gradients_def)
    from trans [OF sym [OF this] assms] have "pb_cache_output self = out \<and> self = self1"
      unfolding sum.inject prod.inject .
    then have a: "self1 = self" and b: "out = pb_cache_output self" by blast+
    from h True have c: "np_all_eq (x, y) (pb_cache_input self) = Inr True" by simp
    show ?thesis by (rule disjI1) (intro conjI a b c)
  next
    case False
    have e: "edges_of (pb_boundary_properties self) \<noteq> []"
      using assms len h False
      by (auto simp: Polygon_calc_distance_and_gradients_def)
    have l: "\<not> choose_limit \<le> length (edges_of (pb_boundary_properties self))"
      using assms len h False e
      by (auto simp: Polygon_calc_distance_and_gradients_def)
    have "Polygon_calc_distance_and_gradients self x y =
          Inr (Some (Polygon_compute (pb_boundary_properties self) x y),
            self\<lparr>pb_cache_input := Some (x, y),
              pb_cache_output := Some (Polygon_compute (pb_boundary_properties self) x y)\<rparr>)"
      using len h False e l
      by (simp add: Polygon_calc_distance_and_gradients_def Let_def)
    from trans [OF sym [OF this] assms] have
      "Some (Polygon_compute (pb_boundary_properties self) x y) = out
       \<and> self\<lparr>pb_cache_input := Some (x, y),
            pb_cache_output := Some (Polygon_compute (pb_boundary_properties self) x y)\<rparr> = self1"
      unfolding sum.inject prod.inject .
    then have o: "out = Some (Polygon_compute (pb_boundary_properties self) x y)"
      and s1: "self1 = self\<lparr>pb_cache_input := Some (x, y),
            pb_cache_output := Some (Polygon_compute (pb_boundary_properties self) x y)\<rparr>"
      by blast+
    have "pb_cache_input self1 = Some (x, y)" "pb_cache_output self1 = out"
      "pb_boundary_properties self1 = pb_boundary_properties self"
      unfolding s1 o by simp_all
    with o show ?thesis by simp
  qed
qed


lemma polygon_second_call:
  assumes "Polygon_calc_distance_and_gradients self x y = Inr (out, self1)"
  shows "Polygon_calc_distance_and_gradients self1 x y = Inr (out, self1)"
proof -
  note c = polygon_calc_cases [OF assms]
  from c(2) show ?thesis
  proof
    assume "self1 = self \<and> out = pb_cache_output self
            \<and> np_all_eq (x, y) (pb_cache_input self) = Inr True"
    then have "self1 = self" by blast
    then show ?thesis using assms by simp
  next
    assume a: "pb_cache_input self1 = Some (x, y) \<and> pb_cache_output self1 = out
            \<and> out = Some (Polygon_compute (pb_boundary_properties self) x y)
            \<and> pb_boundary_properties self1 = pb_boundary_properties self"
    then have "np_all_eq (x, y) (pb_cache_input self1) = Inr True"
      using c(1) by (simp add: bcast_all_eq_same_length)
    then show ?thesis
      using a c(1) by (simp add: Polygon_calc_distance_and_gradients_def)
  qed
qed

lemma polygon_satisfy_eq:
  assumes sx: "state x_key = Some x" and sy: "state y_key = Some y"
    and calc: "Polygon_calc_distance_and_gradients self x y = Inr (Some (dists, dx, dy), self1)"
  shows "Polygon_satisfy self state pad =
     (if length dists \<noteq> length x \<or> length dists \<noteq> length y
         \<or> length dx \<noteq> length dists \<or> length dy \<noteq> length dists
      then Inl IndexError
      else Inr (state(x_key \<mapsto> masked_step x dx dists pad,
                      y_key \<mapsto> masked_step y dy dists pad), self1))"
proof -
  have d: "Polygon_distances self x y = Inr (dists, self1)"
    by (simp add: Polygon_distances_def calc)
  have g: "Polygon_gradients self1 x y = Inr ((diagflat dx, diagflat dy), self1)"
    by (simp add: Polygon_gradients_def polygon_second_call [OF calc])
  show ?thesis
    by (simp add: Polygon_satisfy_def sx sy d g np_diag_diagflat Let_def)
qed

lemma polygon_distances_calc:
  assumes "Polygon_distances self x y = Inr (dists, self1)"
  obtains dx dy where
    "Polygon_calc_distance_and_gradients self x y = Inr (Some (dists, dx, dy), self1)"
proof (cases "Polygon_calc_distance_and_gradients self x y")
  case (Inl e)
  then show thesis using assms by (simp add: Polygon_distances_def)
next
  case (Inr r)
  obtain o1 s1 where r: "r = (o1, s1)" by (cases r)
  show thesis
  proof (cases o1)
    case None
    then show thesis using assms Inr r by (simp add: Polygon_distances_def)
  next
    case (Some out)
    obtain d dx dy where out: "out = (d, dx, dy)" by (cases out)
    have "Inr (d, s1) = (Inr (dists, self1) :: error + (real list \<times> PolygonBoundaryComp))"
      using assms Inr r Some out by (simp add: Polygon_distances_def)
    then have "d = dists \<and> s1 = self1" unfolding sum.inject prod.inject .
    then have "d = dists" "s1 = self1" by blast+
    then show thesis using that Inr r Some out by simp
  qed
qed


lemma polygon_compute_lengths:
  assumes "length x = length y"
  shows "length (fst (Polygon_compute bp x y)) = length x"
    and "length (fst (snd (Polygon_compute bp x y))) = length x"
    and "length (snd (snd (Polygon_compute bp x y))) = length x"
  using assms
  by (simp_all add: Polygon_compute_def per_edge_distance_and_gradients_def np_choose_def Let_def)

lemma polygon_calc_consistent_output:
  assumes calc: "Polygon_calc_distance_and_gradients self x y = Inr (out, self1)"
    and cons: "pb_cache_consistent self"
    and fits: "key_fits (length x) (pb_cache_input self)"
    and d: "out = Some (dists, dx, dy)"
  shows "out = Some (Polygon_compute (pb_boundary_properties self) x y)"
proof -
  note c = polygon_calc_cases [OF calc]
  from c(2) show ?thesis
  proof
    assume a: "self1 = self \<and> out = pb_cache_output self
            \<and> np_all_eq (x, y) (pb_cache_input self) = Inr True"
    have "np_all_eq (x, y) (pb_cache_input self)
        = Inr (pb_cache_input self = Some (x, y) \<or> (pb_cache_input self = None \<and> x = []))"
      using fits c(1) by (rule np_all_eq_fits)
    with a have k: "pb_cache_input self = Some (x, y) \<or> (pb_cache_input self = None \<and> x = [])"
      by simp
    have "pb_cache_input self \<noteq> None"
    proof
      assume "pb_cache_input self = None"
      then have "pb_cache_output self = None" using cons by (simp add: pb_cache_consistent_def)
      then show False using a d by simp
    qed
    with k have "pb_cache_input self = Some (x, y)" by blast
    then have "pb_cache_output self = Some (Polygon_compute (pb_boundary_properties self) x y)"
      using cons by (simp add: pb_cache_consistent_def)
    then show ?thesis using a by simp
  next
    assume "pb_cache_input self1 = Some (x, y) \<and> pb_cache_output self1 = out
            \<and> out = Some (Polygon_compute (pb_boundary_properties self) x y)
            \<and> pb_boundary_properties self1 = pb_boundary_properties self"
    then show ?thesis by blast
  qed
qed

lemma polygon_satisfy_feasible:
  assumes sx: "state x_key = Some x" and sy: "state y_key = Some y"
    and d: "Polygon_distances self x y = Inr (dists, self1)"
    and cons: "pb_cache_consistent self"
    and fits: "key_fits (length x) (pb_cache_input self)"
    and feas: "list_all (\<lambda>d. 0 \<le> d) dists"
  shows "Polygon_satisfy self state pad = Inr (state, self1)"
proof -
  from d obtain dx dy where
    calc: "Polygon_calc_distance_and_gradients self x y = Inr (Some (dists, dx, dy), self1)"
    by (rule polygon_distances_calc)
  have len: "length x = length y" using polygon_calc_cases(1) [OF calc] .
  have "Some (dists, dx, dy) = Some (Polygon_compute (pb_boundary_properties self) x y)"
    using calc cons fits by (rule polygon_calc_consistent_output) simp
  then have out: "Polygon_compute (pb_boundary_properties self) x y = (dists, dx, dy)" by simp
  have l: "length dists = length x" "length dx = length x" "length dy = length x"
    using polygon_compute_lengths [OF len, of "pb_boundary_properties self"]
    by (simp_all add: out)
  have mx: "masked_step x dx dists pad = x"
    using l(1) feas by (rule masked_step_feasible)
  have my: "masked_step y dy dists pad = y"
    using l(1) len feas by (intro masked_step_feasible) simp_all
  have "state(x_key \<mapsto> x, y_key \<mapsto> y) = state"
    using sx sy by (simp add: map_upd_triv)
  then show ?thesis
    using l len by (simp add: polygon_satisfy_eq [OF sx sy calc] mx my)
qed

lemma polygon_satisfy_point:
  assumes sx: "state x_key = Some x" and sy: "state y_key = Some y"
    and d: "Polygon_distances self x y = Inr (dists, self1)"
    and s: "Polygon_satisfy self state pad = Inr (state', self2)"
    and i: "i < length x" and feas: "0 \<le> dists ! i"
  shows "map_option (\<lambda>v. v ! i) (state' x_key) = Some (x ! i)"
    and "map_option (\<lambda>v. v ! i) (state' y_key) = Some (y ! i)"
proof -
  from d obtain dx dy where
    calc: "Polygon_calc_distance_and_gradients self x y = Inr (Some (dists, dx, dy), self1)"
    by (rule polygon_distances_calc)
  have len: "length x = length y" using polygon_calc_cases(1) [OF calc] .
  note e = polygon_satisfy_eq [OF sx sy calc, of pad]
  have "Inr (state(x_key \<mapsto> masked_step x dx dists pad,
                      y_key \<mapsto> masked_step y dy dists pad), self1)
        = (Inr (state', self2) :: error + (state \<times> PolygonBoundaryComp))"
    using s unfolding e by (simp split: if_splits)
  then have "state(x_key \<mapsto> masked_step x dx dists pad,
                      y_key \<mapsto> masked_step y dy dists pad) = state' \<and> self1 = self2"
    unfolding sum.inject prod.inject .
  then have st: "state' = state(x_key \<mapsto> masked_step x dx dists pad,
                      y_key \<mapsto> masked_step y dy dists pad)" by blast
  have nf: "\<not> dists ! i < 0" using feas by simp
  show "map_option (\<lambda>v. v ! i) (state' x_key) = Some (x ! i)"
    unfolding st using keys_differ i nf by (simp add: masked_step_nth)
  show "map_option (\<lambda>v. v ! i) (state' y_key) = Some (y ! i)"
    unfolding st using i nf len by (simp add: masked_step_nth)
qed


lemma fold_min_nonneg:
  "0 \<le> a \<Longrightarrow> list_all (\<lambda>d. 0 \<le> d) ys \<Longrightarrow> 0 \<le> fold min ys (a :: real)"
  by (induction ys arbitrary: a) simp_all

lemma list_min_nonneg:
  assumes "xs \<noteq> []" "list_all (\<lambda>d. 0 \<le> d) xs"
  shows "0 \<le> list_min xs"
proof -
  from assms obtain a ys where xs: "xs = a # ys" by (cases xs) auto
  show ?thesis using assms(2) unfolding xs list_min_def by (simp add: fold_min_nonneg)
qed

lemma clip_nonneg:
  "list_all (\<lambda>d. 0 \<le> d) row \<Longrightarrow>
   map (\<lambda>d. if d < 0 then min d (- (1 / 100)) else d) row = (row :: real list)"
  by (induction row) simp_all

lemma fold_satisfy_Inl:
  "fold (\<lambda>i acc. case acc of Inl e \<Rightarrow> Inl e | Inr xy \<Rightarrow> satisfy_turbine dx dy dists i xy)
     ks (Inl e) = Inl e"
  by (induction ks) simp_all

lemma satisfy_turbine_other:
  assumes "satisfy_turbine dx dy dists k xy = Inr xy'" and "k \<noteq> i"
  shows "fst xy' ! i = fst xy ! i" and "snd xy' ! i = snd xy ! i"
    and "length (fst xy') = length (fst xy)" and "length (snd xy') = length (snd xy)"
proof -
  let ?m = "filter (\<lambda>(X, Y). list_all (\<lambda>(dx', dy', d'). X * dx' + Y * dy' \<ge> - d')
                                    (zip dx (zip dy (dists ! k))))
              (meshgrid (linspace (- \<bar>list_min (dists ! k)\<bar>) \<bar>list_min (dists ! k)\<bar> 100))"
  let ?index = "argmin (map (\<lambda>(X, Y). X\<^sup>2 + Y\<^sup>2) ?m)"
  have "Inr ((fst xy)[k := fst xy ! k + fst (?m ! ?index)],
             (snd xy)[k := snd xy ! k + snd (?m ! ?index)])
        = (Inr xy' :: error + (real list \<times> real list))"
    using assms(1) unfolding satisfy_turbine_def Let_def by (simp split: if_splits)
  then have "((fst xy)[k := fst xy ! k + fst (?m ! ?index)],
             (snd xy)[k := snd xy ! k + snd (?m ! ?index)]) = xy'"
    unfolding sum.inject .
  then have xy': "xy' = ((fst xy)[k := fst xy ! k + fst (?m ! ?index)],
             (snd xy)[k := snd xy ! k + snd (?m ! ?index)])" by (rule sym)
  show "fst xy' ! i = fst xy ! i" "snd xy' ! i = snd xy ! i"
    "length (fst xy') = length (fst xy)" "length (snd xy') = length (snd xy)"
    unfolding xy' using assms(2) by simp_all
qed

lemma fold_satisfy_keeps:
  assumes "fold (\<lambda>i acc. case acc of Inl e \<Rightarrow> Inl e | Inr xy \<Rightarrow> satisfy_turbine dx dy dists i xy)
             ks (Inr xy) = Inr xy'"
    and "i \<notin> set ks"
  shows "fst xy' ! i = fst xy ! i \<and> snd xy' ! i = snd xy ! i
         \<and> length (fst xy') = length (fst xy) \<and> length (snd xy') = length (snd xy)"
  using assms
proof (induction ks arbitrary: xy)
  case Nil
  then show ?case by simp
next
  case (Cons k ks)
  show ?case
  proof (cases "satisfy_turbine dx dy dists k xy")
    case (Inl e)
    with Cons.prems(1) show ?thesis by (simp add: fold_satisfy_Inl)
  next
    case (Inr xy1)
    from Cons.prems(2) have ki: "k \<noteq> i" and rest: "i \<notin> set ks" by auto
    note t = satisfy_turbine_other [OF Inr ki]
    from Cons.prems(1) Inr have
      "fold (\<lambda>i acc. case acc of Inl e \<Rightarrow> Inl e | Inr xy \<Rightarrow> satisfy_turbine dx dy dists i xy)
         ks (Inr xy1) = Inr xy'" by simp
    from Cons.IH [OF this rest] show ?thesis using t by simp
  qed
qed


lemma convex_distances_rows:
  assumes "Convex_distances self x y = Inr D"
  shows "length x = length y" and "length D = length x"
    and "i < length D \<Longrightarrow> length (D ! i) = length (cb_unit_normals self)"
proof -
  show len: "length x = length y"
    using assms by (simp add: Convex_distances_def split: if_splits)
  have v: "length (butlast (cb_xy_boundary self)) = length (cb_unit_normals self)"
    using assms len
    by (simp add: Convex_distances_def calculate_distance_to_boundary_def Let_def
        split: if_splits)
  have "Inr (map (\<lambda>P. map2 (\<lambda>V n.
                      (let PA = vsub V P;
                           d = dot PA n;
                           d_vec = vscale d n
                       in dot d_vec n)) (butlast (cb_xy_boundary self)) (cb_unit_normals self))
             (zip x y)) = (Inr D :: error + real list list)"
    using assms len v
    by (simp add: Convex_distances_def calculate_distance_to_boundary_def Let_def)
  then have D: "D = map (\<lambda>P. map2 (\<lambda>V n.
                      (let PA = vsub V P;
                           d = dot PA n;
                           d_vec = vscale d n
                       in dot d_vec n)) (butlast (cb_xy_boundary self)) (cb_unit_normals self))
             (zip x y)"
    unfolding sum.inject by (rule sym)
  show "length D = length x" unfolding D using len by simp
  show "length (D ! i) = length (cb_unit_normals self)" if "i < length D"
    using that v unfolding D by simp
qed

lemma convex_satisfy_eq:
  assumes sx: "state x_key = Some x" and sy: "state y_key = Some y"
    and d: "Convex_distances self x y = Inr D"
    and n: "cb_n_wt self \<noteq> 0" and u: "cb_unit_normals self \<noteq> []"
  shows "Convex_satisfy self state pad =
     (case fold (\<lambda>i acc. case acc of
                    Inl e \<Rightarrow> Inl e
                  | Inr xy \<Rightarrow>
                      satisfy_turbine
                        (map (\<lambda>row. row ! 0) (take (cb_nVertices self) (cb_dfaceDistance_dx self)))
                        (map (\<lambda>row. row ! 0) (take (cb_nVertices self) (cb_dfaceDistance_dy self)))
                        (map (map (\<lambda>d. if d < 0 then min d (- (1 / 100)) else d)) D) i xy)
              (filter (\<lambda>i. list_min (map (map (\<lambda>d. if d < 0 then min d (- (1 / 100)) else d)) D ! i) < 0)
                 [0..<length D])
              (Inr (x, y)) of
        Inl e \<Rightarrow> Inl e
      | Inr (x', y') \<Rightarrow> Inr (state(x_key \<mapsto> x', y_key \<mapsto> y')))"
  using n u
  by (simp add: Convex_satisfy_def sx sy d Convex_gradients_def Let_def)

lemma convex_satisfy_returns:
  assumes sx: "state x_key = Some x" and sy: "state y_key = Some y"
    and d: "Convex_distances self x y = Inr D"
    and s: "Convex_satisfy self state pad = Inr state'"
  shows "cb_n_wt self \<noteq> 0" and "cb_unit_normals self \<noteq> []"
  using s
  by (simp_all add: Convex_satisfy_def sx sy d Convex_gradients_def Let_def split: if_splits)

lemma clipped_row_feasible:
  assumes i: "i < length D" and ne: "D ! i \<noteq> []" and feas: "list_all (\<lambda>d. 0 \<le> d) (D ! i)"
  shows "\<not> list_min (map (map (\<lambda>d. if d < 0 then min d (- (1 / 100)) else d)) D ! i) < 0"
proof -
  have "map (map (\<lambda>d. if d < 0 then min d (- (1 / 100)) else d)) D ! i = D ! i"
    using i by (simp add: clip_nonneg [OF feas])
  moreover have "0 \<le> list_min (D ! i)" using ne feas by (rule list_min_nonneg)
  ultimately show ?thesis by simp
qed

lemma convex_satisfy_point:
  assumes sx: "state x_key = Some x" and sy: "state y_key = Some y"
    and d: "Convex_distances self x y = Inr D"
    and s: "Convex_satisfy self state pad = Inr state'"
    and i: "i < length x" and feas: "list_all (\<lambda>d. 0 \<le> d) (D ! i)"
  shows "map_option (\<lambda>v. v ! i) (state' x_key) = Some (x ! i)"
    and "map_option (\<lambda>v. v ! i) (state' y_key) = Some (y ! i)"
proof -
  note r = convex_distances_rows [OF d]
  note n = convex_satisfy_returns [OF sx sy d s]
  have iD: "i < length D" using i r(2) by simp
  have ne: "D ! i \<noteq> []" using r(3) [OF iD] n(2) by auto
  let ?dists = "map (map (\<lambda>d. if d < 0 then min d (- (1 / 100)) else d)) D"
  let ?ks = "filter (\<lambda>i. list_min (?dists ! i) < 0) [0..<length D]"
  let ?F = "fold (\<lambda>i acc. case acc of
                    Inl e \<Rightarrow> Inl e
                  | Inr xy \<Rightarrow>
                      satisfy_turbine
                        (map (\<lambda>row. row ! 0) (take (cb_nVertices self) (cb_dfaceDistance_dx self)))
                        (map (\<lambda>row. row ! 0) (take (cb_nVertices self) (cb_dfaceDistance_dy self)))
                        ?dists i xy) ?ks (Inr (x, y))"
  have notin: "i \<notin> set ?ks"
    using clipped_row_feasible [OF iD ne feas] by simp
  note e = convex_satisfy_eq [OF sx sy d n, of pad]
  show "map_option (\<lambda>v. v ! i) (state' x_key) = Some (x ! i)"
    and "map_option (\<lambda>v. v ! i) (state' y_key) = Some (y ! i)"
  proof (atomize (full), cases ?F)
    case (Inl err)
    then show "map_option (\<lambda>v. v ! i) (state' x_key) = Some (x ! i)
        \<and> map_option (\<lambda>v. v ! i) (state' y_key) = Some (y ! i)"
      using s unfolding e by simp
  next
    case (Inr xy')
    note k = fold_satisfy_keeps [OF Inr notin]
    have "Inr (state(x_key \<mapsto> fst xy', y_key \<mapsto> snd xy')) = (Inr state' :: error + state)"
      using s unfolding e Inr by (simp add: case_prod_unfold)
    then have "state(x_key \<mapsto> fst xy', y_key \<mapsto> snd xy') = state'"
      unfolding sum.inject .
    then have st: "state' = state(x_key \<mapsto> fst xy', y_key \<mapsto> snd xy')" by (rule sym)
    show "map_option (\<lambda>v. v ! i) (state' x_key) = Some (x ! i)
        \<and> map_option (\<lambda>v. v ! i) (state' y_key) = Some (y ! i)"
      unfolding st using keys_differ k by simp
  qed
qed

lemma convex_satisfy_feasible:
  assumes sx: "state x_key = Some x" and sy: "state y_key = Some y"
    and d: "Convex_distances self x y = Inr D"
    and n: "cb_n_wt self \<noteq> 0" and u: "cb_unit_normals self \<noteq> []"
    and feas: "list_all (list_all (\<lambda>d. 0 \<le> d)) D"
  shows "Convex_satisfy self state pad = Inr state"
proof -
  note r = convex_distances_rows [OF d]
  let ?dists = "map (map (\<lambda>d. if d < 0 then min d (- (1 / 100)) else d)) D"
  have "\<not> list_min (?dists ! i) < 0" if "i \<in> set [0..<length D]" for i
  proof -
    from that have iD: "i < length D" by simp
    have ne: "D ! i \<noteq> []" using r(3) [OF iD] u by auto
    have "list_all (\<lambda>d. 0 \<le> d) (D ! i)" using feas iD by (simp add: list_all_length)
    with iD ne show ?thesis by (rule clipped_row_feasible)
  qed
  then have ks: "filter (\<lambda>i. list_min (?dists ! i) < 0) [0..<length D] = []"
    unfolding filter_empty_conv by blast
  have "state(x_key \<mapsto> x, y_key \<mapsto> y) = state"
    using sx sy by (simp add: map_upd_triv)
  then show ?thesis
    unfolding convex_satisfy_eq [OF sx sy d n u] ks by simp
qed


lemma convex_square_5_5: "Convex_distances convex_square [5] [5] = Inr [[5, 5, 5, 5]]"
  by (simp add: Convex_distances_def calculate_distance_to_boundary_def convex_square_fields
      vsub_def dot_def vscale_def Let_def)

text \<open>
  C9: \<open>satisfy\<close> does not move a feasible point. For the polygon component: when
  \<open>distances\<close> reports a non-negative distance for the point \<open>i\<close> and \<open>satisfy\<close> returns,
  the returned state holds the coordinates of the point \<open>i\<close> unchanged; and on a state
  whose points are all feasible \<open>satisfy\<close> returns the state as it is, for a component
  whose cache is consistent with a key of the length of the positions. For the convex
  component: when no face distance of the point \<open>i\<close> is negative and \<open>satisfy\<close> returns,
  the coordinates of the point \<open>i\<close> are unchanged; and on a state whose points are all
  feasible \<open>satisfy\<close> returns the state as it is, for a component with a turbine and a
  face.
\<close>

theorem satisfy_keeps_feasible_points:
  "(state x_key = Some x \<and> state y_key = Some y
      \<and> Polygon_distances self x y = Inr (dists, self1)
      \<and> Polygon_satisfy self state pad = Inr (state', self2)
      \<and> i < length x \<and> 0 \<le> dists ! i
    \<longrightarrow> map_option (\<lambda>v. v ! i) (state' x_key) = Some (x ! i)
      \<and> map_option (\<lambda>v. v ! i) (state' y_key) = Some (y ! i))
   \<and> (state x_key = Some x \<and> state y_key = Some y
      \<and> Polygon_distances self x y = Inr (dists, self1)
      \<and> pb_cache_consistent self \<and> key_fits (length x) (pb_cache_input self)
      \<and> list_all (\<lambda>d. 0 \<le> d) dists
    \<longrightarrow> Polygon_satisfy self state pad = Inr (state, self1))
   \<and> (state x_key = Some x \<and> state y_key = Some y
      \<and> Convex_distances cself x y = Inr D
      \<and> Convex_satisfy cself state pad = Inr cstate'
      \<and> i < length x \<and> list_all (\<lambda>d. 0 \<le> d) (D ! i)
    \<longrightarrow> map_option (\<lambda>v. v ! i) (cstate' x_key) = Some (x ! i)
      \<and> map_option (\<lambda>v. v ! i) (cstate' y_key) = Some (y ! i))
   \<and> (state x_key = Some x \<and> state y_key = Some y
      \<and> Convex_distances cself x y = Inr D
      \<and> cb_n_wt cself \<noteq> 0 \<and> cb_unit_normals cself \<noteq> []
      \<and> list_all (list_all (\<lambda>d. 0 \<le> d)) D
    \<longrightarrow> Convex_satisfy cself state pad = Inr state)"
  using polygon_satisfy_point [where state = state and x = x and y = y and self = self
      and dists = dists and ?self1.0 = self1 and pad = pad and state' = state'
      and ?self2.0 = self2 and i = i]
    polygon_satisfy_feasible [where state = state and x = x and y = y and self = self
      and dists = dists and ?self1.0 = self1 and pad = pad]
    convex_satisfy_point [where state = state and x = x and y = y and self = cself
      and D = D and pad = pad and state' = cstate' and i = i]
    convex_satisfy_feasible [where state = state and x = x and y = y and self = cself
      and D = D and pad = pad]
  by blast

theorem satisfy_keeps_feasible_points_witness:
  "[x_key \<mapsto> [5], y_key \<mapsto> [2 :: real]] x_key = Some [5]
   \<and> [x_key \<mapsto> [5 :: real], y_key \<mapsto> [2]] y_key = Some [2]
   \<and> Polygon_distances polygon_square [5] [2]
        = Inr ([2], polygon_square\<lparr>pb_cache_input := Some ([5], [2]),
                      pb_cache_output := Some ([2], [0], [1])\<rparr>)
   \<and> pb_cache_consistent polygon_square
   \<and> key_fits (length [5 :: real]) (pb_cache_input polygon_square)
   \<and> list_all (\<lambda>d. 0 \<le> d) [2 :: real]
   \<and> Polygon_satisfy polygon_square [x_key \<mapsto> [5], y_key \<mapsto> [2]] (11 / 10)
        = Inr ([x_key \<mapsto> [5], y_key \<mapsto> [2]],
               polygon_square\<lparr>pb_cache_input := Some ([5], [2]),
                      pb_cache_output := Some ([2], [0], [1])\<rparr>)
   \<and> map_option (\<lambda>v. v ! 0) ([x_key \<mapsto> [5], y_key \<mapsto> [2 :: real]] x_key) = Some 5
   \<and> map_option (\<lambda>v. v ! 0) ([x_key \<mapsto> [5], y_key \<mapsto> [2 :: real]] y_key) = Some 2
   \<and> [x_key \<mapsto> [5], y_key \<mapsto> [5 :: real]] x_key = Some [5]
   \<and> [x_key \<mapsto> [5 :: real], y_key \<mapsto> [5]] y_key = Some [5]
   \<and> Convex_distances convex_square [5] [5] = Inr [[5, 5, 5, 5]]
   \<and> cb_n_wt convex_square \<noteq> 0 \<and> cb_unit_normals convex_square \<noteq> []
   \<and> list_all (list_all (\<lambda>d. 0 \<le> d)) [[5, 5, 5, 5 :: real]]
   \<and> Convex_satisfy convex_square [x_key \<mapsto> [5], y_key \<mapsto> [5]] (11 / 10)
        = Inr [x_key \<mapsto> [5], y_key \<mapsto> [5]]
   \<and> map_option (\<lambda>v. v ! 0) ([x_key \<mapsto> [5], y_key \<mapsto> [5 :: real]] x_key) = Some 5
   \<and> map_option (\<lambda>v. v ! 0) ([x_key \<mapsto> [5], y_key \<mapsto> [5 :: real]] y_key) = Some 5"
proof -
  let ?st = "[x_key \<mapsto> [5], y_key \<mapsto> [2 :: real]]"
  let ?p1 = "polygon_square\<lparr>pb_cache_input := Some ([5], [2]),
                      pb_cache_output := Some ([2], [0], [1])\<rparr>"
  let ?ct = "[x_key \<mapsto> [5], y_key \<mapsto> [5 :: real]]"
  have sx: "?st x_key = Some [5]" using keys_differ by simp
  have sy: "?st y_key = Some [2]" by simp
  have d: "Polygon_distances polygon_square [5] [2] = Inr ([2], ?p1)"
    by (simp add: Polygon_distances_def polygon_calc_square)
  have cons: "pb_cache_consistent polygon_square"
    by (simp add: pb_cache_consistent_def polygon_square_fields)
  have fits: "key_fits (length [5 :: real]) (pb_cache_input polygon_square)"
    by (simp add: key_fits_def polygon_square_fields)
  have feas: "list_all (\<lambda>d. 0 \<le> d) [2 :: real]" by simp
  note P = satisfy_keeps_feasible_points [where state = ?st and x = "[5]" and y = "[2]"
      and self = polygon_square and dists = "[2]" and ?self1.0 = ?p1
      and pad = "11 / 10" and state' = ?st and ?self2.0 = ?p1 and i = 0]
  have s: "Polygon_satisfy polygon_square ?st (11 / 10) = Inr (?st, ?p1)"
    using P sx sy d cons fits feas by blast
  have i: "0 < length [5 :: real]" "0 \<le> [2 :: real] ! 0" by simp_all
  have px: "map_option (\<lambda>v. v ! 0) (?st x_key) = Some ([5] ! 0)"
    and py: "map_option (\<lambda>v. v ! 0) (?st y_key) = Some ([2] ! 0)"
    using P sx sy d s i by blast+
  have cx: "?ct x_key = Some [5]" using keys_differ by simp
  have cy: "?ct y_key = Some [5]" by simp
  have cd: "Convex_distances convex_square [5] [5] = Inr [[5, 5, 5, 5]]"
    by (rule convex_square_5_5)
  have n: "cb_n_wt convex_square \<noteq> 0" "cb_unit_normals convex_square \<noteq> []"
    by (simp_all add: convex_square_fields)
  have cfeas: "list_all (list_all (\<lambda>d. 0 \<le> d)) [[5, 5, 5, 5 :: real]]" by simp
  note C = satisfy_keeps_feasible_points [where state = ?ct and x = "[5]" and y = "[5]"
      and cself = convex_square and D = "[[5, 5, 5, 5]]"
      and pad = "11 / 10" and cstate' = ?ct and i = 0]
  have cs: "Convex_satisfy convex_square ?ct (11 / 10) = Inr ?ct"
    using C cx cy cd n cfeas by blast
  have ci: "0 < length [5 :: real]" "list_all (\<lambda>d. 0 \<le> d) ([[5, 5, 5, 5 :: real]] ! 0)"
    by simp_all
  have qx: "map_option (\<lambda>v. v ! 0) (?ct x_key) = Some ([5] ! 0)"
    and qy: "map_option (\<lambda>v. v ! 0) (?ct y_key) = Some ([5] ! 0)"
    using C cx cy cd cs ci by blast+
  have px': "map_option (\<lambda>v. v ! 0) (?st x_key) = Some 5" using px by simp
  have py': "map_option (\<lambda>v. v ! 0) (?st y_key) = Some 2" using py by simp
  have qx': "map_option (\<lambda>v. v ! 0) (?ct x_key) = Some 5" using qx by simp
  have qy': "map_option (\<lambda>v. v ! 0) (?ct y_key) = Some 5" using qy by simp
  show ?thesis
    by (intro conjI) (rule sx sy d cons fits feas s px' py' cx cy cd n cfeas cs qx' qy')+
qed

end
